theory Spec2Isabelle
  imports Main "HOL-Library.Word"
begin

section \<open>Exit scheduling: \<open>RootChain.getExitTime\<close> (rootchain.js)\<close>

text \<open>
  The chain as one invocation of \<open>getExitTime\<close> sees it: the result of
  \<open>plasmaContract.methods.minExitPeriod()\<close>, of \<open>web3.eth.getBlock\<close> (which is
  \<open>null\<close> for a block the node does not have yet), of \<open>plasmaContract.methods.blocks\<close>
  and the clock read by \<open>new Date().getTime()\<close>, in milliseconds.
\<close>

record chain =
  minExitPeriod :: nat
  getBlock :: "nat \<Rightarrow> nat option"
  blocks :: "nat \<Rightarrow> nat"
  nowMs :: nat

record exit_time_args =
  exitRequestBlockNumber :: nat
  submissionBlockNumber :: nat
  retries :: int

record exit_time =
  scheduledFinalizationTime :: int
  msUntilFinalization :: int

text \<open>
  The two ways the promise of \<open>getExitTime\<close> is rejected: the explicit
  \<open>Error('Could not get exit request block data: N')\<close>, carrying the block number, and
  the \<open>TypeError\<close> that reading \<open>exitBlock.timestamp\<close> raises when \<open>exitBlock\<close> is
  \<open>null\<close>.
\<close>

datatype js_error = CouldNotGetExitRequestBlock nat | TypeErrorNullTimestamp

text \<open>A callback handed to \<open>setTimeout\<close>: the delay and the arguments of the deferred call.\<close>

record timer =
  delayMs :: nat
  deferred :: exit_time_args

definition bufferSeconds :: nat where
  "bufferSeconds = 5"

definition retryInterval :: nat where
  "retryInterval = 5000"

definition defaultRetries :: int where
  "defaultRetries = 10"

text \<open>\<open>Math.round(ms / 1000)\<close> on a non-negative number of milliseconds.\<close>

definition currentUnix :: "nat \<Rightarrow> nat" where
  "currentUnix ms = (ms + 500) div 1000"

text \<open>
  The part of \<open>getExitTime\<close> after both blocks are read: the two branches on
  \<open>_submissionBlockNumber % 1000\<close>, then the buffer.
\<close>

definition schedule :: "nat \<Rightarrow> nat \<Rightarrow> nat \<Rightarrow> nat \<Rightarrow> nat" where
  "schedule minExit submissionNumber exitTs submissionTs =
     (if submissionNumber mod 1000 \<noteq> 0
      then max (exitTs + minExit) (submissionTs + minExit)
      else max (exitTs + minExit) (submissionTs + minExit * 2))"

text \<open>
  One invocation of \<open>getExitTime\<close>: how its promise settles, and the timers it has
  set. When the exit block is missing and \<open>retries > 0\<close> the code calls
  \<open>setTimeout\<close> and goes on to the statements after the \<open>if\<close>; the value of the
  deferred call is not returned to anybody.
\<close>

definition getExitTime :: "chain \<Rightarrow> exit_time_args \<Rightarrow> (js_error + exit_time) \<times> timer list" where
  "getExitTime c a =
     (case getBlock c (exitRequestBlockNumber a) of
        None \<Rightarrow>
          (if retries a > 0
           then (Inl TypeErrorNullTimestamp,
                 [\<lparr>delayMs = retryInterval, deferred = a\<lparr>retries := retries a - 1\<rparr>\<rparr>])
           else (Inl (CouldNotGetExitRequestBlock (exitRequestBlockNumber a)), []))
      | Some exitTs \<Rightarrow>
          (let t = schedule (minExitPeriod c) (submissionBlockNumber a) exitTs
                     (blocks c (submissionBlockNumber a))
           in (Inr \<lparr>scheduledFinalizationTime = int (t + bufferSeconds),
                    msUntilFinalization =
                      (int (t + bufferSeconds) - int (currentUnix (nowMs c))) * 1000\<rparr>,
               [])))"

text \<open>
  The timers fire one after the other; \<open>world\<close> gives the chain as it is at each time
  (in milliseconds). The list is every invocation that takes place, with its time and the
  way its own promise settles; the head is the call the user made.
\<close>

function invocations :: "(nat \<Rightarrow> chain) \<Rightarrow> nat \<Rightarrow> exit_time_args \<Rightarrow> (nat \<times> (js_error + exit_time)) list" where
  "invocations world now a =
     (case getExitTime (world now) a of
        (r, []) \<Rightarrow> [(now, r)]
      | (r, t # _) \<Rightarrow> (now, r) # invocations world (now + delayMs t) (deferred t))"
  by pat_completeness auto
termination
  by (relation "measure (\<lambda>(world, now, a). nat (retries a))")
     (auto simp: getExitTime_def Let_def split: option.splits if_splits)

section \<open>Exit queue: \<open>RootChain.getExitQueue\<close> (rootchain.js)\<close>

text \<open>
  \<open>BN.toString(10)\<close> and \<open>BN.toString(2)\<close> of a non-negative number: the digits of \<open>n\<close>
  in base \<open>b\<close>, most significant first, \<open>0\<close> for zero. (Bases below 2 do not occur; the
  test on \<open>b\<close> only makes the recursion total.)
\<close>

definition digit :: "nat \<Rightarrow> char" where
  "digit d = ''0123456789abcdef'' ! d"

fun toStringBase :: "nat \<Rightarrow> nat \<Rightarrow> string" where
  "toStringBase b n =
     (if n < b \<or> b < 2 then [digit n]
      else toStringBase b (n div b) @ [digit (n mod b)])"

text \<open>The padding loop of \<open>BN.toString(base, padding)\<close>:
  \<open>while (out.length % padding !== 0) out = '0' + out\<close>.\<close>

definition padToMultiple :: "nat \<Rightarrow> string \<Rightarrow> string" where
  "padToMultiple padding out =
     replicate ((padding - length out mod padding) mod padding) (CHR ''0'') @ out"

definition toString2_256 :: "nat \<Rightarrow> string" where
  "toString2_256 n = padToMultiple 256 (toStringBase 2 n)"

text \<open>\<open>String.prototype.substr(start, length)\<close>.\<close>

definition substr :: "string \<Rightarrow> nat \<Rightarrow> nat \<Rightarrow> string" where
  "substr s start len = take len (drop start s)"

text \<open>\<open>new BN(str, 2)\<close> on a string of binary digits.\<close>

definition fromBinary :: "string \<Rightarrow> nat" where
  "fromBinary s = foldl (\<lambda>acc ch. 2 * acc + (if ch = CHR ''1'' then 1 else 0)) 0 s"

record exit_entry =
  priority :: string
  exitableAt :: string
  exitId :: string

text \<open>The body of the \<open>map\<close> callback in \<open>getExitQueue\<close>.\<close>

definition decodePriority :: "nat \<Rightarrow> exit_entry" where
  "decodePriority p =
     (let binary = toString2_256 p;
          exitableAtBinary = substr binary 0 42;
          exitIdBinary = substr binary 96 160
      in \<lparr>priority = toStringBase 10 p,
          exitableAt = toStringBase 10 (fromBinary exitableAtBinary),
          exitId = toStringBase 10 (fromBinary exitIdBinary)\<rparr>)"

text \<open>
  \<open>getExitQueue\<close> after \<open>heapList()\<close> has answered: \<open>None\<close> is a \<open>null\<close> answer,
  which the guard \<open>rawExitQueue && rawExitQueue.length\<close> sends to the empty result.
\<close>

definition getExitQueue :: "nat list option \<Rightarrow> exit_entry list" where
  "getExitQueue rawExitQueue =
     (case rawExitQueue of
        None \<Rightarrow> []
      | Some raw \<Rightarrow>
          (if length raw \<noteq> 0
           then (let exitQueuePriorities = drop 1 raw in map decodePriority exitQueuePriorities)
           else []))"

section \<open>Memoised contract handles: \<open>RootChain.getPaymentExitGame\<close> (rootchain.js)\<close>

text \<open>
  The value stored in \<open>this.paymentExitGame\<close>. The contract object is built by
  \<open>getContract\<close> from the address alone, so it is represented by that address.
\<close>

record bonds =
  standardExit :: nat
  piggyback :: nat
  inflightExit :: nat

record payment_exit_game =
  contract :: nat
  address :: nat
  bonds :: bonds

text \<open>
  A call of the \<open>async\<close> method is suspended at each \<open>await\<close>: first on
  \<open>exitGames(PAYMENT_TYPE)\<close>, then on the \<open>Promise.all\<close> of the three bond sizes
  (asked of the contract at the address just received); then it has returned.
\<close>

datatype pending =
    AwaitExitGames
  | AwaitBondSizes nat
  | Returned payment_exit_game

text \<open>
  One client instance: the memo field, the number of on-chain calls issued so far, and
  the calls made so far, each with the point it has reached (in call order).
\<close>

record client =
  paymentExitGame :: "payment_exit_game option"
  lookups :: nat
  callers :: "pending list"

definition newClient :: client where
  "newClient = \<lparr>paymentExitGame = None, lookups = 0, callers = []\<rparr>"

text \<open>
  What the event loop can do next: somebody calls \<open>getPaymentExitGame\<close>; the chain
  answers the address lookup of caller \<open>i\<close>; the chain answers the three bond-size
  lookups of caller \<open>i\<close>.
\<close>

datatype event =
    Call
  | AnswerExitGames nat nat
  | AnswerBondSizes nat nat nat nat

text \<open>
  The code run by each event, up to the next \<open>await\<close> or the \<open>return\<close>.
  \<open>None\<close>: the event cannot happen in this state (no such suspended caller).
\<close>

fun step :: "client \<Rightarrow> event \<Rightarrow> client option" where
  "step s Call =
     (case paymentExitGame s of
        None \<Rightarrow> Some (s\<lparr>lookups := lookups s + 1, callers := callers s @ [AwaitExitGames]\<rparr>)
      | Some h \<Rightarrow> Some (s\<lparr>callers := callers s @ [Returned h]\<rparr>))"
| "step s (AnswerExitGames i addr) =
     (if i < length (callers s) \<and> callers s ! i = AwaitExitGames
      then Some (s\<lparr>lookups := lookups s + 3, callers := (callers s)[i := AwaitBondSizes addr]\<rparr>)
      else None)"
| "step s (AnswerBondSizes i b0 b1 b2) =
     (if i < length (callers s)
      then (case callers s ! i of
              AwaitBondSizes addr \<Rightarrow>
                (let h = \<lparr>contract = addr, address = addr,
                          bonds = \<lparr>standardExit = b0, piggyback = b1, inflightExit = b2\<rparr>\<rparr>
                 in Some (s\<lparr>paymentExitGame := Some h, callers := (callers s)[i := Returned h]\<rparr>))
            | _ \<Rightarrow> None)
      else None)"

fun run :: "client \<Rightarrow> event list \<Rightarrow> client option" where
  "run s [] = Some s"
| "run s (e # es) = (case step s e of None \<Rightarrow> None | Some s' \<Rightarrow> run s' es)"

section \<open>Hexadecimal strings and byte strings\<close>

type_synonym byte = "8 word"

text \<open>\<open>hexPrefix\<close> (hexPrefix.js): \<open>data.startsWith('0x') ? data : `0x${data}`\<close>.\<close>

definition hexPrefix :: "string \<Rightarrow> string" where
  "hexPrefix data = (if take 2 data = ''0x'' then data else ''0x'' @ data)"

definition stripHexPrefix :: "string \<Rightarrow> string" where
  "stripHexPrefix s = (if take 2 s = ''0x'' then drop 2 s else s)"

fun indexOf :: "char \<Rightarrow> string \<Rightarrow> nat option" where
  "indexOf ch [] = None"
| "indexOf ch (x # xs) =
     (if ch = x then Some 0 else (case indexOf ch xs of None \<Rightarrow> None | Some i \<Rightarrow> Some (Suc i)))"

definition hexValue :: "char \<Rightarrow> nat option" where
  "hexValue ch =
     (case indexOf ch ''0123456789abcdef'' of
        Some v \<Rightarrow> Some v
      | None \<Rightarrow> (case indexOf ch ''ABCDEF'' of Some v \<Rightarrow> Some (v + 10) | None \<Rightarrow> None))"

text \<open>\<open>Buffer.from(s, 'hex')\<close>: two digits a byte, stopping at the first pair that is not
  hexadecimal.\<close>

fun hexToBytes :: "string \<Rightarrow> byte list" where
  "hexToBytes (h # l # rest) =
     (case (hexValue h, hexValue l) of
        (Some a, Some b) \<Rightarrow> of_nat (16 * a + b) # hexToBytes rest
      | _ \<Rightarrow> [])"
| "hexToBytes _ = []"

text \<open>\<open>buf.toString('hex')\<close>.\<close>

definition byteToHex :: "byte \<Rightarrow> string" where
  "byteToHex b = [digit (unat b div 16), digit (unat b mod 16)]"

definition bytesToHex :: "byte list \<Rightarrow> string" where
  "bytesToHex bs = concat (map byteToHex bs)"

section \<open>Amounts and \<open>numberToBN\<close>\<close>

text \<open>
  The three forms an amount is supplied in: a JavaScript number, a string, or a BN.js
  instance. \<open>Native n\<close> is the integer-valued number that \<open>String\<close> prints as the
  integer \<open>n\<close> (for a safe integer, the number itself); numbers that are not integers
  have no place in this type.
\<close>

datatype amount = Native int | Str string | BigNum int

definition isDigit :: "char \<Rightarrow> bool" where
  "isDigit ch = (ch \<in> set ''0123456789'')"

text \<open>\<open>new BN(str, 10)\<close> and \<open>new BN(str, 16)\<close> on a string of digits.\<close>

definition digitValue :: "char \<Rightarrow> nat" where
  "digitValue ch = of_char ch - 48"

definition fromDecimal :: "string \<Rightarrow> nat" where
  "fromDecimal s = foldl (\<lambda>acc ch. 10 * acc + digitValue ch) 0 s"

definition fromHex :: "string \<Rightarrow> nat" where
  "fromHex s = foldl (\<lambda>acc ch. 16 * acc + (case hexValue ch of None \<Rightarrow> 0 | Some v \<Rightarrow> v)) 0 s"

text \<open>\<open>new BN(str, 10)\<close> reads a leading minus sign.\<close>

definition newBN10 :: "string \<Rightarrow> int" where
  "newBN10 s = (if take 1 s = ''-'' then - int (fromDecimal (drop 1 s)) else int (fromDecimal s))"

text \<open>
  \<open>String.prototype.toLowerCase\<close> and \<open>String.prototype.trim\<close>. A character is a
  code unit below 256. \<open>toLowerCase\<close> is given on the letters of ASCII: no other
  letter occurs in a string that \<open>numberToBN\<close> accepts or that stands for bytes. The
  white space that \<open>trim\<close> removes is tab, line feed, vertical tab, form feed,
  carriage return, space and no-break space.
\<close>

definition lowerChar :: "char \<Rightarrow> char" where
  "lowerChar ch =
     (case indexOf ch ''ABCDEFGHIJKLMNOPQRSTUVWXYZ'' of
        None \<Rightarrow> ch
      | Some i \<Rightarrow> ''abcdefghijklmnopqrstuvwxyz'' ! i)"

definition toLowerCase :: "string \<Rightarrow> string" where
  "toLowerCase s = map lowerChar s"

definition isSpace :: "char \<Rightarrow> bool" where
  "isSpace ch = (ch \<in> set [CHR 0x09, CHR 0x0A, CHR 0x0B, CHR 0x0C, CHR 0x0D, CHR 0x20, CHR 0xA0])"

definition trim :: "string \<Rightarrow> string" where
  "trim s = rev (dropWhile isSpace (rev (dropWhile isSpace s)))"

text \<open>
  The three regular expressions of \<open>numberToBN\<close>: \<open>/^-?[0-9]+$/\<close>,
  \<open>/^[0-9A-Fa-f]+$/\<close> and \<open>/^[a-fA-F]+$/\<close>.
\<close>

definition matchesInteger :: "string \<Rightarrow> bool" where
  "matchesInteger s =
     (let d = (if take 1 s = ''-'' then drop 1 s else s) in d \<noteq> [] \<and> list_all isDigit d)"

definition matchesHex :: "string \<Rightarrow> bool" where
  "matchesHex s = (s \<noteq> [] \<and> list_all (\<lambda>ch. hexValue ch \<noteq> None) s)"

definition matchesHexLetters :: "string \<Rightarrow> bool" where
  "matchesHexLetters s = (s \<noteq> [] \<and> list_all (\<lambda>ch. ch \<in> set ''abcdefABCDEF'') s)"

datatype merge_error =
    MustMergeAtLeast2
  | CannotMergeMoreThan4
  | CurrencyMustBeSame
  | OwnerMustBeSame
  | InvalidNumberValue

text \<open>
  \<open>numberToBN\<close> of the package number-to-bn, which \<open>mergeUtxosToOutput\<close> requires
  (a dependency, whose source is not in the repository: this is its published code, of
  version 1.7.0), on a string. The string is put in lower case and trimmed; a prefix
  \<open>0x\<close> or \<open>-0x\<close> marks it as hexadecimal; the prefix and a leading minus sign are
  taken off (the sign kept as a multiplier) and an empty rest reads as \<open>0\<close>. What is
  left is read in base 16 when it is hexadecimal and not a decimal integer, or made of
  the letters a to f only, or was marked hexadecimal; otherwise in base 10 when it is a
  decimal integer and was not marked; anything else raises the error ``invalid number
  value''.
\<close>

definition numberToBNString :: "string \<Rightarrow> merge_error + int" where
  "numberToBNString arg =
     (let formattedString = trim (toLowerCase arg);
          isHexPrefixed = (take 2 formattedString = ''0x'' \<or> take 3 formattedString = ''-0x'');
          stripped = stripHexPrefix formattedString;
          negative = (take 1 stripped = ''-'');
          unsigned = (if negative then stripHexPrefix (drop 1 stripped) else stripped);
          multiplier = (if negative then - 1 else 1);
          stringArg = (if unsigned = [] then ''0'' else unsigned)
      in if (\<not> matchesInteger stringArg \<and> matchesHex stringArg)
            \<or> matchesHexLetters stringArg
            \<or> (isHexPrefixed \<and> matchesHex stringArg)
         then Inr (int (fromHex stringArg) * multiplier)
         else if matchesInteger stringArg \<and> \<not> isHexPrefixed
         then Inr (newBN10 stringArg * multiplier)
         else Inl InvalidNumberValue)"

text \<open>
  \<open>numberToBN\<close> on the three forms. A number goes through \<open>String(arg)\<close> and then
  the same way as a string: below \<open>1e21\<close> in magnitude that string is the decimal
  digits of the number, with its sign, which are read back in base 10 as the number;
  from \<open>1e21\<close> on it is exponent notation (\<open>1e+21\<close>), which is refused. A BN
  instance keeps its value.
\<close>

definition numberToBN :: "amount \<Rightarrow> merge_error + int" where
  "numberToBN a =
     (case a of
        Native n \<Rightarrow>
          (if \<bar>n\<bar> < 1000000000000000000000 then Inr n else Inl InvalidNumberValue)
      | BigNum n \<Rightarrow> Inr n
      | Str s \<Rightarrow> numberToBNString s)"

text \<open>The integer an amount stands for, when \<open>numberToBN\<close> accepts it.\<close>

definition amountValue :: "amount \<Rightarrow> int" where
  "amountValue a = (case numberToBN a of Inl e \<Rightarrow> 0 | Inr v \<Rightarrow> v)"

section \<open>Merging UTXOs: \<open>mergeUtxosToOutput\<close>\<close>

record utxo =
  currency :: string
  owner :: string
  amount :: amount

record tx_output =
  outputType :: nat
  outputGuard :: string
  currency :: string
  amount :: amount





section \<open>UTXO position codec\<close>

text \<open>
  Modelled from the spec: \<open>transaction.encodeUtxoPos\<close> and
  \<open>transaction.decodeUtxoPos\<close> of omg-js-util (src/transaction.js, which the
  repository's copy of the package lacks). The position is
  \<open>blknum * 1_000_000_000 + txindex * 10_000 + oindex\<close>, in exact integer arithmetic;
  decoding divides and takes remainders by the same two constants.
\<close>

record tx_input =
  blknum :: nat
  txindex :: nat
  oindex :: nat

definition BLOCK_OFFSET :: nat where
  "BLOCK_OFFSET = 1000000000"

definition TX_OFFSET :: nat where
  "TX_OFFSET = 10000"

text \<open>
  Modelled from the spec: \<open>encodeUtxoPos\<close> (absent src/transaction.js),
  ``\<open>blknum*1_000_000_000 + txindex*10_000 + oindex\<close>'' in arbitrary precision.
\<close>

definition encodeUtxoPos :: "tx_input \<Rightarrow> nat" where
  "encodeUtxoPos utxo = blknum utxo * BLOCK_OFFSET + txindex utxo * TX_OFFSET + oindex utxo"

text \<open>
  Modelled from the spec: \<open>decodeUtxoPos\<close> (absent src/transaction.js), ``via integer
  division/modulo by 10_000 then 1_000_000_000''.
\<close>

definition decodeUtxoPos :: "nat \<Rightarrow> tx_input" where
  "decodeUtxoPos utxoPos =
     \<lparr>blknum = utxoPos div BLOCK_OFFSET,
      txindex = (utxoPos mod BLOCK_OFFSET) div TX_OFFSET,
      oindex = utxoPos mod TX_OFFSET\<rparr>"

section \<open>The deposit position of \<open>RootChain.getDepositExitData\<close> (rootchain.js)\<close>

text \<open>
  \<open>getDepositExitData\<close> computes the position of a deposit itself, as
  \<open>blknum * 1000000000\<close> on JavaScript numbers: the product of two doubles, which is
  the exact product rounded to the nearest double (53 significant bits, ties to the
  even significand). \<open>toDouble\<close> is that rounding on the natural numbers (all of them
  far below the overflow of a double here); \<open>blknum\<close> itself, the result of
  \<open>hexToNumber\<close>, and \<open>1000000000\<close> are exact. Of the object that
  \<open>getDepositExitData\<close> returns this is the field \<open>utxo_pos\<close>; the inclusion proof
  and the transaction bytes, which come from the node, are left out.
\<close>

fun bitLength :: "nat \<Rightarrow> nat" where
  "bitLength n = (if n = 0 then 0 else Suc (bitLength (n div 2)))"

definition toDouble :: "nat \<Rightarrow> nat" where
  "toDouble n =
     (if n < 2 ^ 53 then n
      else (let e = bitLength n - 53;
                q = n div 2 ^ e;
                r = n mod 2 ^ e;
                half = 2 ^ (e - 1)
            in (if r < half \<or> (r = half \<and> even q) then q else q + 1) * 2 ^ e))"

definition depositUtxoPos :: "nat \<Rightarrow> nat" where
  "depositUtxoPos blockNumber = toDouble (blockNumber * 1000000000)"

section \<open>Length-prefixed recursive encoding\<close>

text \<open>
  Modelled from the spec: the encoding that \<open>transaction.encode\<close> and
  \<open>transaction.decodeTxBytes\<close> (src/transaction.js, which the repository's copy of
  the package lacks) apply to the nested list of a transaction. A byte string shorter than 56 bytes is one length
  byte followed by its content, a longer one has a length-of-length prefix, and a list is
  encoded the same way over its serialized items; a single byte below \<open>0x80\<close> stands
  for itself (the first byte \<open>01\<close> of every expected encoding in the package's tests
  is such a transaction type). An integer is its minimal big-endian byte string, zero the
  empty one.
\<close>

datatype rlp = RlpBytes "byte list" | RlpList "rlp list"

text \<open>
  Modelled from the spec: the serialization of an integer (absent src/transaction.js and
  its encoder), ``minimal big-endian byte representation with no leading zero byte; the
  value zero serializes as the empty byte string''; \<open>bufferToInt\<close> reads it back, and
  \<open>setLengthLeft\<close> pads on the left to a fixed width.
\<close>

fun toBuffer :: "nat \<Rightarrow> byte list" where
  "toBuffer n = (if n = 0 then [] else toBuffer (n div 256) @ [of_nat (n mod 256)])"

definition bufferToInt :: "byte list \<Rightarrow> nat" where
  "bufferToInt bs = foldl (\<lambda>acc b. 256 * acc + unat b) 0 bs"

definition setLengthLeft :: "nat \<Rightarrow> byte list \<Rightarrow> byte list" where
  "setLengthLeft n bs = replicate (n - length bs) 0 @ bs"

text \<open>
  Modelled from the spec: the length prefix (absent src/transaction.js and its encoder):
  one byte \<open>offset + length\<close> below 56 bytes, otherwise \<open>offset + 55 +\<close> the length of
  the length, followed by the length itself.
\<close>

definition encodeLength :: "nat \<Rightarrow> nat \<Rightarrow> byte list" where
  "encodeLength len offset =
     (if len < 56 then [of_nat (len + offset)]
      else (let bl = toBuffer len in of_nat (length bl + offset + 55) # bl))"

text \<open>
  Modelled from the spec: the encoder of nested lists (absent src/transaction.js and its
  encoder), offset \<open>0x80\<close> for byte strings and \<open>0xc0\<close> for lists.
\<close>

fun rlpEncode :: "rlp \<Rightarrow> byte list" where
  "rlpEncode (RlpBytes bs) =
     (if length bs = 1 \<and> unat (hd bs) < 128 then bs
      else encodeLength (length bs) 128 @ bs)"
| "rlpEncode (RlpList xs) =
     (let payload = concat (map rlpEncode xs)
      in encodeLength (length payload) 192 @ payload)"

text \<open>
  Modelled from the spec: the decoder of nested lists (absent src/transaction.js and its
  decoder), the ``exact inverse'' of the encoder; a length prefix that promises more
  bytes than there are is refused. The first byte of an item tells what follows: whether the item is a list, how many
  bytes the header takes and how many the payload. A byte below \<open>0x80\<close> is its own
  payload (header of length 0).
\<close>

definition decodeHeader :: "byte list \<Rightarrow> (bool \<times> nat \<times> nat) option" where
  "decodeHeader input =
     (case input of
        [] \<Rightarrow> None
      | b # rest \<Rightarrow>
          (if unat b < 128 then Some (False, 0, 1)
           else if unat b < 184 then Some (False, 1, unat b - 128)
           else if unat b < 192
             then Some (False, 1 + (unat b - 183), bufferToInt (take (unat b - 183) rest))
           else if unat b < 248 then Some (True, 1, unat b - 192)
           else Some (True, 1 + (unat b - 247), bufferToInt (take (unat b - 247) rest))))"

text \<open>
  Modelled from the spec: one item, and the items of a list payload one after the other
  (the decoder absent with src/transaction.js). The recursion is on a fuel counter;
  \<open>rlpDecode\<close> starts it with the length of the input, which is enough because every
  item takes at least one byte (see \<open>rlpDecode_rlpEncode\<close>), and refuses bytes left over
  after the item.
\<close>

fun decodeItem :: "nat \<Rightarrow> byte list \<Rightarrow> (rlp \<times> byte list) option"
  and decodeItems :: "nat \<Rightarrow> byte list \<Rightarrow> rlp list option" where
  "decodeItem 0 input = None"
| "decodeItem (Suc fuel) input =
     (case decodeHeader input of
        None \<Rightarrow> None
      | Some (isList, h, len) \<Rightarrow>
          (if length input < h + len then None
           else if isList
             then (case decodeItems fuel (take len (drop h input)) of
                     None \<Rightarrow> None
                   | Some xs \<Rightarrow> Some (RlpList xs, drop (h + len) input))
             else Some (RlpBytes (take len (drop h input)), drop (h + len) input)))"
| "decodeItems 0 input = (if input = [] then Some [] else None)"
| "decodeItems (Suc fuel) input =
     (if input = [] then Some []
      else (case decodeItem (Suc fuel) input of
              None \<Rightarrow> None
            | Some (x, rest) \<Rightarrow>
                (case decodeItems fuel rest of
                   None \<Rightarrow> None
                 | Some xs \<Rightarrow> Some (x # xs))))"

definition rlpDecode :: "byte list \<Rightarrow> rlp option" where
  "rlpDecode bs =
     (case decodeItem (length bs) bs of
        Some (x, []) \<Rightarrow> Some x
      | _ \<Rightarrow> None)"

section \<open>Transaction codec\<close>

text \<open>
  Modelled from the spec: \<open>transaction.encode\<close>, \<open>transaction.decodeTxBytes\<close>
  and \<open>transaction.encodeDeposit\<close> of omg-js-util (the repository's copy of the
  package lacks src/transaction.js; its tests are there). The layout of the encoded
  list, which the specification leaves open, is the one of the expected encodings in
  those tests: transaction type, the list of inputs (each the UTXO position as 32 bytes), the list of outputs (each
  \<open>[outputType, [outputGuard, currency, amount]]\<close>), \<open>txData\<close>, \<open>metadata\<close>.
  Where the tests fix what the specification words otherwise, the tests are followed:
  a transaction without \<open>metadata\<close> is encoded with an empty metadata string (the
  expected encodings end in \<open>8080\<close>), and an empty metadata string is decoded as the
  20-byte zero string \<open>0x00..00\<close> (the expected object of the decoding test);
  \<open>encodeDeposit\<close> supplies the 32 zero bytes itself (its expected encodings end in
  \<open>a0\<close> and 32 zero bytes).
\<close>

record transaction =
  txType :: nat
  inputs :: "tx_input list"
  outputs :: "tx_output list"
  txData :: "nat option"
  metadata :: "string option"

datatype codec_error = MalformedLength | WrongFieldCount

definition ETH_CURRENCY :: string where
  "ETH_CURRENCY = ''0x0000000000000000000000000000000000000000''"

definition NULL_ADDRESS :: string where
  "NULL_ADDRESS = ''0x0000000000000000000000000000000000000000''"

definition NULL_METADATA :: string where
  "NULL_METADATA = ''0x0000000000000000000000000000000000000000000000000000000000000000''"

text \<open>
  Modelled from the spec: the nested list that \<open>encode\<close> serializes (absent
  src/transaction.js). Addresses, currencies and metadata are given as hexadecimal
  strings and emitted as their bytes; an input is its UTXO position on 32 bytes; an
  amount, in any of its three forms, is the integer it stands for.
\<close>

definition addressToRlp :: "string \<Rightarrow> rlp" where
  "addressToRlp s = RlpBytes (hexToBytes (stripHexPrefix s))"

definition inputToRlp :: "tx_input \<Rightarrow> rlp" where
  "inputToRlp i = RlpBytes (setLengthLeft 32 (toBuffer (encodeUtxoPos i)))"

definition outputToRlp :: "tx_output \<Rightarrow> rlp" where
  "outputToRlp out =
     RlpList [RlpBytes (toBuffer (outputType out)),
              RlpList [addressToRlp (outputGuard out),
                       addressToRlp (tx_output.currency out),
                       RlpBytes (toBuffer (nat (amountValue (tx_output.amount out))))]]"

definition txToRlp :: "transaction \<Rightarrow> rlp" where
  "txToRlp tx =
     RlpList [RlpBytes (toBuffer (txType tx)),
              RlpList (map inputToRlp (inputs tx)),
              RlpList (map outputToRlp (outputs tx)),
              RlpBytes (case txData tx of None \<Rightarrow> [] | Some d \<Rightarrow> toBuffer d),
              (case metadata tx of None \<Rightarrow> RlpBytes [] | Some m \<Rightarrow> addressToRlp m)]"

text \<open>
  Modelled from the spec: \<open>transaction.encode\<close> (absent src/transaction.js), returning
  the bytes as a \<open>0x\<close> string as the tests expect them.
\<close>

definition encode :: "transaction \<Rightarrow> string" where
  "encode tx = hexPrefix (bytesToHex (rlpEncode (txToRlp tx)))"

text \<open>
  Modelled from the spec: reading the decoded list back into a transaction (absent
  src/transaction.js): numbers from their bytes, addresses as \<open>0x\<close> strings, the amount
  ``as a decimal string (not a native number)'', any other shape of list a wrong field
  count. An empty metadata string comes back as the 20-byte zero string, as the
  decoding test expects.
\<close>

definition parseNumber :: "byte list \<Rightarrow> nat" where
  "parseNumber buf = bufferToInt buf"

definition parseString :: "byte list \<Rightarrow> string" where
  "parseString buf = ''0x'' @ bytesToHex buf"

fun rlpToInput :: "rlp \<Rightarrow> tx_input option" where
  "rlpToInput (RlpBytes bs) = Some (decodeUtxoPos (bufferToInt bs))"
| "rlpToInput (RlpList xs) = None"

fun rlpToOutput :: "rlp \<Rightarrow> tx_output option" where
  "rlpToOutput (RlpList [RlpBytes t, RlpList [RlpBytes g, RlpBytes c, RlpBytes a]]) =
     Some \<lparr>outputType = parseNumber t, outputGuard = parseString g, currency = parseString c,
           amount = Str (toStringBase 10 (bufferToInt a))\<rparr>"
| "rlpToOutput _ = None"

fun allSome :: "'a option list \<Rightarrow> 'a list option" where
  "allSome [] = Some []"
| "allSome (None # xs) = None"
| "allSome (Some x # xs) = (case allSome xs of None \<Rightarrow> None | Some ys \<Rightarrow> Some (x # ys))"

fun rlpToTx :: "rlp \<Rightarrow> transaction option" where
  "rlpToTx (RlpList [RlpBytes t, RlpList ins, RlpList outs, RlpBytes d, RlpBytes m]) =
     (case (allSome (map rlpToInput ins), allSome (map rlpToOutput outs)) of
        (Some is, Some os) \<Rightarrow>
          Some \<lparr>txType = parseNumber t, inputs = is, outputs = os,
                txData = Some (parseNumber d),
                metadata = Some (if m = [] then NULL_ADDRESS else parseString m)\<rparr>
      | _ \<Rightarrow> None)"
| "rlpToTx _ = None"

text \<open>
  Modelled from the spec: \<open>transaction.decodeTxBytes\<close> (absent src/transaction.js);
  ``fails with a CodecError on malformed length prefixes or wrong field counts''.
\<close>

definition decodeTxBytes :: "string \<Rightarrow> codec_error + transaction" where
  "decodeTxBytes tx =
     (case rlpDecode (hexToBytes (stripHexPrefix tx)) of
        None \<Rightarrow> Inl MalformedLength
      | Some decoded \<Rightarrow>
          (case rlpToTx decoded of None \<Rightarrow> Inl WrongFieldCount | Some t \<Rightarrow> Inr t))"

text \<open>
  Modelled from the spec: \<open>transaction.encodeDeposit\<close> (absent src/transaction.js), the
  encoding of the transaction without inputs and with the one output owned by
  \<open>ownerAddress\<close>; transaction type and output type 1, \<open>txData\<close> 0 and 32 zero bytes of
  metadata are those of the expected encodings of its tests.
\<close>

definition encodeDeposit :: "string \<Rightarrow> amount \<Rightarrow> string \<Rightarrow> string" where
  "encodeDeposit ownerAddress depositAmount depositCurrency =
     encode \<lparr>txType = 1, inputs = [],
             outputs = [\<lparr>outputType = 1, outputGuard = hexPrefix ownerAddress,
                         currency = hexPrefix depositCurrency, amount = depositAmount\<rparr>],
             txData = Some 0, metadata = Some NULL_METADATA\<rparr>"

section \<open>Well-formed transactions and what decoding returns\<close>

text \<open>
  A string stands for \<open>n\<close> bytes when, with or without the prefix \<open>0x\<close>, it is \<open>2n\<close>
  hexadecimal digits, in either case of the letters (so a checksummed address does). The
  decoder returns such a value as \<open>0x\<close> and its digits in lower case.
\<close>

definition isHexString :: "nat \<Rightarrow> string \<Rightarrow> bool" where
  "isHexString n s =
     (length (stripHexPrefix s) = 2 * n \<and> list_all (\<lambda>ch. hexValue ch \<noteq> None) (stripHexPrefix s))"

definition lowerHex :: "string \<Rightarrow> string" where
  "lowerHex s = ''0x'' @ toLowerCase (stripHexPrefix s)"

text \<open>An amount that \<open>numberToBN\<close> accepts and that is not negative.\<close>

definition acceptedAmount :: "amount \<Rightarrow> bool" where
  "acceptedAmount a = (case numberToBN a of Inl e \<Rightarrow> False | Inr v \<Rightarrow> 0 \<le> v)"

text \<open>
  The transactions of the data model: every input a position whose \<open>txindex\<close> and
  \<open>oindex\<close> stay inside their digits of the packed position (which the ranges 0 to 9999
  and 0 to 3 do), every output with a guard and a currency of 20 bytes and an accepted
  amount, and \<open>metadata\<close>, when given, of 32 bytes.
\<close>

definition validInput :: "tx_input \<Rightarrow> bool" where
  "validInput i = (txindex i < 100000 \<and> oindex i < 10000)"

definition validOutput :: "tx_output \<Rightarrow> bool" where
  "validOutput out =
     (isHexString 20 (outputGuard out) \<and> isHexString 20 (tx_output.currency out)
      \<and> acceptedAmount (tx_output.amount out))"

definition validTx :: "transaction \<Rightarrow> bool" where
  "validTx tx =
     (list_all validInput (inputs tx) \<and> list_all validOutput (outputs tx)
      \<and> (case metadata tx of None \<Rightarrow> True | Some m \<Rightarrow> isHexString 32 m))"

text \<open>
  What a well-formed transaction is decoded to: the same type and inputs; every output
  with its guard and currency in lower case and its amount as the decimal string of its
  value; \<open>txData\<close> as a number (0 when it was absent); \<open>metadata\<close> in lower case, or
  the 20-byte zero string when it was absent.
\<close>

definition decodedOutput :: "tx_output \<Rightarrow> tx_output" where
  "decodedOutput out =
     \<lparr>outputType = outputType out,
      outputGuard = lowerHex (outputGuard out),
      currency = lowerHex (tx_output.currency out),
      amount = Str (toStringBase 10 (nat (amountValue (tx_output.amount out))))\<rparr>"

definition decodedForm :: "transaction \<Rightarrow> transaction" where
  "decodedForm tx =
     \<lparr>txType = txType tx, inputs = inputs tx, outputs = map decodedOutput (outputs tx),
      txData = Some (case txData tx of None \<Rightarrow> 0 | Some d \<Rightarrow> d),
      metadata = Some (case metadata tx of None \<Rightarrow> NULL_ADDRESS | Some m \<Rightarrow> lowerHex m)\<rparr>"


text \<open>
  The transaction of the package's decoding test (``should return an encoded transaction
  from bn amount''), which gives neither \<open>txData\<close> nor \<open>metadata\<close>.
\<close>

definition decodingTestTx :: transaction where
  "decodingTestTx =
     \<lparr>txType = 1, inputs = [\<lparr>blknum = 19774001, txindex = 0, oindex = 0\<rparr>],
      outputs = [\<lparr>outputType = 1, outputGuard = ''0xf4ebbe787311bb955bb353b7a4d8b97af8ed1c9b'',
                  currency = ''0x0000000000000000000000000000000000000000'',
                  amount = Str ''123''\<rparr>],
      txData = None, metadata = None\<rparr>"

section \<open>The finalization time as the specification words it\<close>

text \<open>
  The specification's sentence on \<open>getExitTime\<close>, for comparison with \<open>schedule\<close>:
  \<open>max(exitRequestBlock.timestamp, submissionBlock.timestamp) + minExitPeriod\<close> when the
  submission block number is not a multiple of 1000, otherwise
  \<open>max(exitRequestBlock.timestamp, submissionBlock.timestamp + 2*minExitPeriod)\<close>, plus
  the buffer of 5 seconds.
\<close>

definition claimedFinalization :: "nat \<Rightarrow> nat \<Rightarrow> nat \<Rightarrow> nat \<Rightarrow> nat" where
  "claimedFinalization minExit submissionNumber exitTs submissionTs =
     (if submissionNumber mod 1000 \<noteq> 0
      then max exitTs submissionTs + minExit
      else max exitTs (submissionTs + 2 * minExit)) + 5"

section \<open>Properties of the exit schedule\<close>

declare toStringBase.simps [simp del]
declare invocations.simps [simp del]
declare bitLength.simps [simp del]

lemma schedule_deposit:
  "submissionNumber mod 1000 \<noteq> 0 \<Longrightarrow>
   schedule m submissionNumber e s = max e s + m"
  by (simp add: schedule_def max_def)

lemma schedule_regular:
  "submissionNumber mod 1000 = 0 \<Longrightarrow>
   schedule m submissionNumber e s = max (e + m) (s + 2 * m)"
  by (simp add: schedule_def mult.commute)

text \<open>
  C7 (as amended). When the exit-request block is available, \<open>getExitTime\<close> resolves
  at once, sets no timer, and \<open>scheduledFinalizationTime\<close> is
  \<open>max(exit timestamp, submission timestamp) + minExitPeriod + 5\<close> when the submission
  block number is not a multiple of 1000, and
  \<open>max(exit timestamp + minExitPeriod, submission timestamp + 2 * minExitPeriod) + 5\<close>
  when it is: the exit timestamp carries \<open>minExitPeriod\<close> in both branches.
\<close>

theorem getExitTime_finalization:
  assumes "getBlock c (exitRequestBlockNumber a) = Some e"
  shows "getExitTime c a =
     (Inr \<lparr>scheduledFinalizationTime =
             int ((if submissionBlockNumber a mod 1000 \<noteq> 0
                   then max e (blocks c (submissionBlockNumber a)) + minExitPeriod c
                   else max (e + minExitPeriod c)
                          (blocks c (submissionBlockNumber a) + 2 * minExitPeriod c)) + 5),
            msUntilFinalization =
              (int ((if submissionBlockNumber a mod 1000 \<noteq> 0
                   then max e (blocks c (submissionBlockNumber a)) + minExitPeriod c
                   else max (e + minExitPeriod c)
                          (blocks c (submissionBlockNumber a) + 2 * minExitPeriod c)) + 5)
               - int (currentUnix (nowMs c))) * 1000\<rparr>, [])"
proof (cases "submissionBlockNumber a mod 1000 = 0")
  case True
  then show ?thesis using assms
    by (simp add: getExitTime_def Let_def schedule_regular bufferSeconds_def)
next
  case False
  then show ?thesis using assms
    by (simp add: getExitTime_def Let_def schedule_deposit bufferSeconds_def)
qed

theorem getExitTime_finalization_witness:
  "getExitTime \<lparr>minExitPeriod = 10, getBlock = (\<lambda>n. Some 1000), blocks = (\<lambda>n. 0), nowMs = 0\<rparr>
     \<lparr>exitRequestBlockNumber = 7, submissionBlockNumber = 2000, retries = 10\<rparr>
   = (Inr \<lparr>scheduledFinalizationTime = 1015, msUntilFinalization = 1015000\<rparr>, [])"
  using getExitTime_finalization [of
     "\<lparr>minExitPeriod = 10, getBlock = (\<lambda>n. Some 1000), blocks = (\<lambda>n. 0), nowMs = 0\<rparr>"
     "\<lparr>exitRequestBlockNumber = 7, submissionBlockNumber = 2000, retries = 10\<rparr>" 1000]
  by (simp add: currentUnix_def)

text \<open>
  C7 as stated fails. With \<open>minExitPeriod = 10\<close>, submission block 2000 of timestamp 0
  and an exit-request block of timestamp 1000, the code schedules 1000 + 10 + 5 = 1015,
  where the specification's formula gives max(1000, 0 + 20) + 5 = 1005.
\<close>

theorem getExitTime_claimed_counterexample:
  "fst (getExitTime \<lparr>minExitPeriod = 10, getBlock = (\<lambda>n. Some 1000), blocks = (\<lambda>n. 0), nowMs = 0\<rparr>
     \<lparr>exitRequestBlockNumber = 7, submissionBlockNumber = 2000, retries = 10\<rparr>)
   = Inr \<lparr>scheduledFinalizationTime = 1015, msUntilFinalization = 1015000\<rparr>
   \<and> claimedFinalization 10 2000 1000 0 = 1005"
  by (simp add: getExitTime_def schedule_def bufferSeconds_def currentUnix_def
      claimedFinalization_def)

lemma invocations_retry:
  assumes "getBlock (world now) (exitRequestBlockNumber a) = None" and "retries a > 0"
  shows "invocations world now a =
           (now, Inl TypeErrorNullTimestamp) #
           invocations world (now + retryInterval) (a\<lparr>retries := retries a - 1\<rparr>)"
  using assms by (subst invocations.simps) (simp add: getExitTime_def)

lemma invocations_exhausted:
  assumes "getBlock (world now) (exitRequestBlockNumber a) = None" and "retries a \<le> 0"
  shows "invocations world now a =
           [(now, Inl (CouldNotGetExitRequestBlock (exitRequestBlockNumber a)))]"
  using assms by (subst invocations.simps) (simp add: getExitTime_def)

text \<open>
  C8. With the exit-request block missing and the default of 10 retries, the promise
  returned to the caller is rejected at once with the \<open>TypeError\<close> of reading
  \<open>timestamp\<close> of \<open>null\<close>; the retry is a timer of 5000 ms whose result nobody
  receives. Of the eleven invocations that take place, only the last one, in a timer,
  raises the error that names the block.
\<close>

theorem getExitTime_missing_block_rejects_at_once:
  "getExitTime \<lparr>minExitPeriod = 10, getBlock = (\<lambda>n. None), blocks = (\<lambda>n. 0), nowMs = 0\<rparr>
     \<lparr>exitRequestBlockNumber = 100, submissionBlockNumber = 1000, retries = defaultRetries\<rparr>
   = (Inl TypeErrorNullTimestamp,
      [\<lparr>delayMs = 5000,
        deferred = \<lparr>exitRequestBlockNumber = 100, submissionBlockNumber = 1000, retries = 9\<rparr>\<rparr>])
   \<and> map snd (invocations (\<lambda>t. \<lparr>minExitPeriod = 10, getBlock = (\<lambda>n. None), blocks = (\<lambda>n. 0), nowMs = t\<rparr>) 0
     \<lparr>exitRequestBlockNumber = 100, submissionBlockNumber = 1000, retries = defaultRetries\<rparr>)
   = [Inl TypeErrorNullTimestamp, Inl TypeErrorNullTimestamp, Inl TypeErrorNullTimestamp,
      Inl TypeErrorNullTimestamp, Inl TypeErrorNullTimestamp, Inl TypeErrorNullTimestamp,
      Inl TypeErrorNullTimestamp, Inl TypeErrorNullTimestamp, Inl TypeErrorNullTimestamp,
      Inl TypeErrorNullTimestamp, Inl (CouldNotGetExitRequestBlock 100)]"
  by (simp add: getExitTime_def retryInterval_def defaultRetries_def invocations_retry
        invocations_exhausted)

section \<open>Properties of the exit queue\<close>

lemma digit_0: "digit 0 = CHR ''0''" by (simp add: digit_def)
lemma digit_1: "digit (Suc 0) = CHR ''1''" by (simp add: digit_def)

lemma fromBinary_snoc:
  "fromBinary (xs @ [ch]) = 2 * fromBinary xs + (if ch = CHR ''1'' then 1 else 0)"
  by (simp add: fromBinary_def)

lemma fromBinary_append:
  "fromBinary (xs @ ys) = fromBinary xs * 2 ^ length ys + fromBinary ys"
proof (induction ys rule: rev_induct)
  case Nil
  show ?case by (simp add: fromBinary_def)
next
  case (snoc y ys)
  have "fromBinary (xs @ ys @ [y]) = fromBinary ((xs @ ys) @ [y])" by simp
  also have "\<dots> = 2 * fromBinary (xs @ ys) + (if y = CHR ''1'' then 1 else 0)"
    by (rule fromBinary_snoc)
  also have "\<dots> = fromBinary xs * 2 ^ length (ys @ [y]) + fromBinary (ys @ [y])"
    by (simp add: snoc.IH fromBinary_snoc algebra_simps)
  finally show ?case .
qed

lemma fromBinary_less: "fromBinary ys < 2 ^ length ys"
proof (induction ys rule: rev_induct)
  case Nil
  show ?case by (simp add: fromBinary_def)
next
  case (snoc y ys)
  then show ?case by (simp add: fromBinary_snoc)
qed

lemma fromBinary_zeros: "fromBinary (replicate k (CHR ''0'')) = 0"
  by (induction k) (simp_all add: fromBinary_def)

lemma fromBinary_toStringBase: "fromBinary (toStringBase 2 n) = n"
proof (induction n rule: less_induct)
  case (less n)
  show ?case
  proof (cases "n < 2")
    case True
    then have "n = 0 \<or> n = Suc 0" by arith
    then show ?thesis
      by (auto simp: toStringBase.simps [of 2 0] toStringBase.simps [of 2 "Suc 0"]
          digit_0 digit_1 fromBinary_def)
  next
    case False
    then have ih: "fromBinary (toStringBase 2 (n div 2)) = n div 2"
      using less.IH [of "n div 2"] by simp
    have m: "n mod 2 = 0 \<or> n mod 2 = Suc 0" by arith
    have "toStringBase 2 n = toStringBase 2 (n div 2) @ [digit (n mod 2)]"
      using False by (subst toStringBase.simps) simp
    then have "fromBinary (toStringBase 2 n) =
        2 * (n div 2) + (if digit (n mod 2) = CHR ''1'' then 1 else 0)"
      by (simp only: fromBinary_snoc ih)
    also have "(if digit (n mod 2) = CHR ''1'' then 1 else 0) = n mod 2"
      using m by (auto simp: digit_0 digit_1)
    also have "2 * (n div 2) + n mod 2 = n" by simp
    finally show ?thesis .
  qed
qed

lemma length_toStringBase_pos: "0 < length (toStringBase b n)"
  by (subst toStringBase.simps) simp

lemma length_toStringBase_2: "n < 2 ^ k \<Longrightarrow> 0 < k \<Longrightarrow> length (toStringBase 2 n) \<le> k"
proof (induction k arbitrary: n)
  case 0
  then show ?case by simp
next
  case (Suc k)
  show ?case
  proof (cases "n < 2")
    case True
    then show ?thesis by (subst toStringBase.simps) simp
  next
    case False
    then have k: "0 < k" using Suc.prems by (cases k) auto
    have "n div 2 < 2 ^ k" using Suc.prems by auto
    then have "length (toStringBase 2 (n div 2)) \<le> k" using Suc.IH k by blast
    then show ?thesis using False by (subst toStringBase.simps) simp
  qed
qed

lemma length_toString2_256:
  assumes "p < 2 ^ 256"
  shows "length (toString2_256 p) = 256"
proof -
  have u: "length (toStringBase 2 p) \<le> 256"
    using length_toStringBase_2 [of p 256] assms by simp
  have l: "0 < length (toStringBase 2 p)" by (rule length_toStringBase_pos)
  show ?thesis
  proof (cases "length (toStringBase 2 p) = 256")
    case True
    then show ?thesis by (simp add: toString2_256_def padToMultiple_def)
  next
    case False
    then have "length (toStringBase 2 p) < 256" using u by simp
    then show ?thesis using l by (simp add: toString2_256_def padToMultiple_def)
  qed
qed

lemma fromBinary_toString2_256: "fromBinary (toString2_256 p) = p"
  by (simp add: toString2_256_def padToMultiple_def fromBinary_append fromBinary_zeros
      fromBinary_toStringBase)

lemma fromBinary_take:
  assumes "k \<le> length bits"
  shows "fromBinary (take k bits) = fromBinary bits div 2 ^ (length bits - k)"
proof -
  have "fromBinary bits = fromBinary (take k bits @ drop k bits)" by simp
  also have "\<dots> = fromBinary (take k bits) * 2 ^ (length bits - k) + fromBinary (drop k bits)"
    by (simp only: fromBinary_append length_drop)
  finally have e: "fromBinary bits =
    fromBinary (take k bits) * 2 ^ (length bits - k) + fromBinary (drop k bits)" .
  have "fromBinary (drop k bits) < 2 ^ (length bits - k)"
    using fromBinary_less [of "drop k bits"] by simp
  then show ?thesis by (simp add: e)
qed

lemma fromBinary_drop:
  "fromBinary (drop k bits) = fromBinary bits mod 2 ^ (length bits - k)"
proof -
  have "fromBinary bits = fromBinary (take k bits @ drop k bits)" by simp
  also have "\<dots> = fromBinary (take k bits) * 2 ^ (length bits - k) + fromBinary (drop k bits)"
    by (simp only: fromBinary_append length_drop)
  finally have e: "fromBinary bits =
    fromBinary (take k bits) * 2 ^ (length bits - k) + fromBinary (drop k bits)" .
  have "fromBinary (drop k bits) < 2 ^ (length bits - k)"
    using fromBinary_less [of "drop k bits"] by simp
  then show ?thesis by (simp add: e)
qed

lemma toStringBase_digit: "n < b \<Longrightarrow> toStringBase b n = [digit n]"
  by (subst toStringBase.simps) simp

lemma toStringBase_more:
  "\<not> n < b \<Longrightarrow> 2 \<le> b \<Longrightarrow> toStringBase b n = toStringBase b (n div b) @ [digit (n mod b)]"
  by (subst toStringBase.simps) simp

lemma digitValue_digit:
  assumes "d < 10"
  shows "digitValue (digit d) = d" and "isDigit (digit d)"
proof -
  have c: "(d = 9 \<or> d = 8 \<or> d = 7 \<or> d = 6 \<or> d = 5) \<or> (d = 4 \<or> d = 3 \<or> d = 2 \<or> d = 1 \<or> d = 0)"
    using assms by arith
  show "digitValue (digit d) = d"
    using c by (elim disjE) (simp_all add: digitValue_def digit_def)
  show "isDigit (digit d)"
    using c by (elim disjE) (simp_all add: isDigit_def digit_def)
qed

lemma fromDecimal_snoc: "fromDecimal (s @ [ch]) = 10 * fromDecimal s + digitValue ch"
  by (simp add: fromDecimal_def)

lemma decimal_toStringBase:
  "fromDecimal (toStringBase 10 n) = n \<and> list_all isDigit (toStringBase 10 n)
   \<and> toStringBase 10 n \<noteq> []"
proof (induction n rule: less_induct)
  case (less n)
  show ?case
  proof (cases "n < 10")
    case True
    then show ?thesis
      by (simp add: toStringBase_digit digitValue_digit fromDecimal_def)
  next
    case False
    then have ih: "fromDecimal (toStringBase 10 (n div 10)) = n div 10"
      "list_all isDigit (toStringBase 10 (n div 10))"
      using less.IH [of "n div 10"] by simp_all
    have e: "toStringBase 10 n = toStringBase 10 (n div 10) @ [digit (n mod 10)]"
      using False by (simp add: toStringBase_more)
    have d: "digitValue (digit (n mod 10)) = n mod 10" "isDigit (digit (n mod 10))"
      by (simp_all add: digitValue_digit)
    have "fromDecimal (toStringBase 10 n) = 10 * (n div 10) + n mod 10"
      by (simp only: e fromDecimal_snoc ih d)
    then show ?thesis using ih(2) d(2) by (simp add: e)
  qed
qed

lemma digit_digitValue:
  assumes "isDigit ch"
  shows "digit (digitValue ch) = ch" and "digitValue ch < 10"
  using assms by (auto simp: isDigit_def digit_def digitValue_def)

lemma toStringBase_snoc:
  assumes "0 < n" and "d < 10"
  shows "toStringBase 10 (10 * n + d) = toStringBase 10 n @ [digit d]"
proof -
  have "\<not> 10 * n + d < 10" using assms(1) by simp
  then have "toStringBase 10 (10 * n + d) =
      toStringBase 10 ((10 * n + d) div 10) @ [digit ((10 * n + d) mod 10)]"
    by (rule toStringBase_more) simp
  then show ?thesis using assms(2) by simp
qed

text \<open>A string of digits that does not start with 0 is the decimal string of its value.\<close>

lemma toStringBase_fromDecimal:
  "s \<noteq> [] \<Longrightarrow> list_all isDigit s \<Longrightarrow> hd s \<noteq> CHR ''0'' \<Longrightarrow>
   toStringBase 10 (fromDecimal s) = s \<and> 0 < fromDecimal s"
proof (induction s rule: rev_induct)
  case Nil
  then show ?case by simp
next
  case (snoc ch s)
  have d: "digit (digitValue ch) = ch" "digitValue ch < 10"
    using snoc.prems(2) by (simp_all add: digit_digitValue)
  show ?case
  proof (cases "s = []")
    case True
    then have "ch \<noteq> CHR ''0''" using snoc.prems(3) by simp
    then have "0 < digitValue ch"
      using snoc.prems(2) by (auto simp: isDigit_def digitValue_def)
    then show ?thesis using True d by (simp add: fromDecimal_def toStringBase_digit)
  next
    case False
    then have "hd s \<noteq> CHR ''0''" using snoc.prems(3) by simp
    then have ih: "toStringBase 10 (fromDecimal s) = s" "0 < fromDecimal s"
      using snoc.IH False snoc.prems(2) by simp_all
    have "toStringBase 10 (fromDecimal (s @ [ch])) = s @ [ch]"
      by (simp only: fromDecimal_snoc toStringBase_snoc [OF ih(2) d(2)] ih d)
    then show ?thesis using ih(2) by (simp add: fromDecimal_snoc)
  qed
qed

text \<open>
  What the decoder returns for a priority below \<open>2^256\<close>: the first 42 of the 256
  binary digits are \<open>priority div 2^214\<close>, the last 160 are \<open>priority mod 2^160\<close>.
\<close>

lemma decodePriority_fields:
  assumes "p < 2 ^ 256"
  shows "decodePriority p =
           \<lparr>priority = toStringBase 10 p,
            exitableAt = toStringBase 10 (p div 2 ^ 214),
            exitId = toStringBase 10 (p mod 2 ^ 160)\<rparr>"
proof -
  have len: "length (toString2_256 p) = 256" using assms by (rule length_toString2_256)
  have val: "fromBinary (toString2_256 p) = p" by (rule fromBinary_toString2_256)
  have a: "fromBinary (substr (toString2_256 p) 0 42) = p div 2 ^ 214"
    using fromBinary_take [of 42 "toString2_256 p"] by (simp add: substr_def len val)
  have "substr (toString2_256 p) 96 160 = drop 96 (toString2_256 p)"
    by (simp add: substr_def len)
  then have b: "fromBinary (substr (toString2_256 p) 96 160) = p mod 2 ^ 160"
    using fromBinary_drop [of 96 "toString2_256 p"] by (simp add: len val)
  show ?thesis by (simp add: decodePriority_def Let_def a b)
qed

text \<open>
  C5. For a priority below \<open>2^256\<close> the binary string has exactly 256 digits and reads
  back as the priority; \<open>exitableAt\<close> is the decimal string of its first 42 bits, that
  is of \<open>priority div 2^214\<close>, and \<open>exitId\<close> the decimal string of its last 160 bits,
  that is of \<open>priority mod 2^160\<close>.
\<close>

theorem decodePriority_bits:
  assumes "p < 2 ^ 256"
  shows "length (toString2_256 p) = 256
       \<and> fromBinary (toString2_256 p) = p
       \<and> decodePriority p =
           \<lparr>priority = toStringBase 10 p,
            exitableAt = toStringBase 10 (p div 2 ^ 214),
            exitId = toStringBase 10 (p mod 2 ^ 160)\<rparr>"
proof -
  have len: "length (toString2_256 p) = 256" using assms by (rule length_toString2_256)
  have val: "fromBinary (toString2_256 p) = p" by (rule fromBinary_toString2_256)
  show ?thesis using len val decodePriority_fields [OF assms] by simp
qed

theorem decodePriority_bits_witness:
  "(1600000000 * 2 ^ 214 + 42 :: nat) < 2 ^ 256
   \<and> decodePriority (1600000000 * 2 ^ 214 + 42) =
       \<lparr>priority = toStringBase 10 (1600000000 * 2 ^ 214 + 42),
        exitableAt = ''1600000000'', exitId = ''42''\<rparr>"
proof -
  have lt: "(1600000000 * 2 ^ 214 + 42 :: nat) < 2 ^ 256" by simp
  have d: "(1600000000 * 2 ^ 214 + 42 :: nat) div 2 ^ 214 = 1600000000" by simp
  have m: "(1600000000 * 2 ^ 214 + 42 :: nat) mod 2 ^ 160 = 42" by simp
  have a: "toStringBase 10 1600000000 = ''1600000000''"
    by (simp add: toStringBase_digit toStringBase_more digit_def)
  have b: "toStringBase 10 42 = ''42''"
    by (simp add: toStringBase_digit toStringBase_more digit_def)
  show ?thesis
    using decodePriority_bits [OF lt] by (simp only: d m a b lt simp_thms)
qed

text \<open>
  C6. An empty (or \<open>null\<close>) heap list gives the empty queue; otherwise the element at
  index 0 is dropped, whatever it is, and every other entry is decoded, in the order of
  the heap list, so that the queue has one entry for each of them; the entry of a
  priority \<open>p\<close> below \<open>2^256\<close> is the three decimal strings of \<open>p\<close>, of
  \<open>p div 2^214\<close> (\<open>exitableAt\<close>) and of \<open>p mod 2^160\<close> (\<open>exitId\<close>); a sentinel
  followed by one priority gives exactly one entry.
\<close>

theorem getExitQueue_spec:
  "getExitQueue None = []
   \<and> getExitQueue (Some []) = []
   \<and> getExitQueue (Some (sentinel # priorities)) = map decodePriority priorities
   \<and> length (getExitQueue (Some (sentinel # priorities))) = length priorities
   \<and> (list_all (\<lambda>p. p < 2 ^ 256) priorities \<longrightarrow>
        getExitQueue (Some (sentinel # priorities)) =
          map (\<lambda>p. \<lparr>priority = toStringBase 10 p,
                     exitableAt = toStringBase 10 (p div 2 ^ 214),
                     exitId = toStringBase 10 (p mod 2 ^ 160)\<rparr>) priorities)
   \<and> getExitQueue (Some [sentinel, p]) = [decodePriority p]
   \<and> (p < 2 ^ 256 \<longrightarrow>
        getExitQueue (Some [sentinel, p]) =
          [\<lparr>priority = toStringBase 10 p,
            exitableAt = toStringBase 10 (p div 2 ^ 214),
            exitId = toStringBase 10 (p mod 2 ^ 160)\<rparr>])"
proof -
  have q: "getExitQueue (Some (s # ps)) = map decodePriority ps" for s ps
    by (simp add: getExitQueue_def)
  have f: "map decodePriority ps =
          map (\<lambda>p. \<lparr>priority = toStringBase 10 p,
                     exitableAt = toStringBase 10 (p div 2 ^ 214),
                     exitId = toStringBase 10 (p mod 2 ^ 160)\<rparr>) ps"
    if "list_all (\<lambda>p. p < 2 ^ 256) ps" for ps
    using that by (intro map_cong refl decodePriority_fields) (simp add: list_all_iff)
  have one: "getExitQueue (Some [sentinel, p]) =
          [\<lparr>priority = toStringBase 10 p,
            exitableAt = toStringBase 10 (p div 2 ^ 214),
            exitId = toStringBase 10 (p mod 2 ^ 160)\<rparr>]" if "p < 2 ^ 256"
    using that by (simp add: q decodePriority_fields)
  have e: "getExitQueue None = []" "getExitQueue (Some []) = []"
    by (simp_all add: getExitQueue_def)
  show ?thesis using e one f [of priorities] by (simp add: q)
qed

theorem getExitQueue_spec_witness:
  "getExitQueue (Some [0, 1600000000 * 2 ^ 214 + 42, 5]) =
     [\<lparr>priority = ''42124916667422874679167211073468172927558038160219644501724391014400000042'',
       exitableAt = ''1600000000'', exitId = ''42''\<rparr>,
      \<lparr>priority = ''5'', exitableAt = ''0'', exitId = ''5''\<rparr>]"
proof -
  have big: "(1600000000 * 2 ^ 214 + 42 :: nat) =
      fromDecimal ''42124916667422874679167211073468172927558038160219644501724391014400000042''"
    by (simp add: fromDecimal_def digitValue_def)
  have "toStringBase 10
      (fromDecimal ''42124916667422874679167211073468172927558038160219644501724391014400000042'')
      = ''42124916667422874679167211073468172927558038160219644501724391014400000042''"
    by (rule conjunct1 [OF toStringBase_fromDecimal]) (simp_all add: isDigit_def)
  then have p: "toStringBase 10 (1600000000 * 2 ^ 214 + 42) =
      ''42124916667422874679167211073468172927558038160219644501724391014400000042''"
    by (simp only: big)
  have d: "(1600000000 * 2 ^ 214 + 42 :: nat) div 2 ^ 214 = 1600000000" by simp
  have m: "(1600000000 * 2 ^ 214 + 42 :: nat) mod 2 ^ 160 = 42" by simp
  have d5: "(5 :: nat) div 2 ^ 214 = 0" by simp
  have m5: "(5 :: nat) mod 2 ^ 160 = 5" by simp
  have a: "toStringBase 10 1600000000 = ''1600000000''"
    by (simp add: toStringBase_digit toStringBase_more digit_def)
  have b: "toStringBase 10 42 = ''42''"
    by (simp add: toStringBase_digit toStringBase_more digit_def)
  have c: "toStringBase 10 5 = ''5''" "toStringBase 10 0 = ''0''"
    by (simp_all add: toStringBase_digit digit_def)
  have lt: "list_all (\<lambda>p. p < 2 ^ 256) [1600000000 * 2 ^ 214 + 42, 5 :: nat]" by simp
  have "list_all (\<lambda>p. p < 2 ^ 256) [1600000000 * 2 ^ 214 + 42, 5 :: nat] \<longrightarrow>
        getExitQueue (Some [0, 1600000000 * 2 ^ 214 + 42, 5]) =
          map (\<lambda>p. \<lparr>priority = toStringBase 10 p,
                     exitableAt = toStringBase 10 (p div 2 ^ 214),
                     exitId = toStringBase 10 (p mod 2 ^ 160)\<rparr>)
            [1600000000 * 2 ^ 214 + 42, 5]"
    using getExitQueue_spec [of 0 "[1600000000 * 2 ^ 214 + 42, 5]" 0] by (elim conjE)
  from this lt have "getExitQueue (Some [0, 1600000000 * 2 ^ 214 + 42, 5]) =
          map (\<lambda>p. \<lparr>priority = toStringBase 10 p,
                     exitableAt = toStringBase 10 (p div 2 ^ 214),
                     exitId = toStringBase 10 (p mod 2 ^ 160)\<rparr>)
            [1600000000 * 2 ^ 214 + 42, 5]"
    by (rule mp)
  then show ?thesis by (simp only: list.map p d m d5 m5 a b c)
qed

section \<open>Properties of \<open>mergeUtxosToOutput\<close>\<close>












lemmas numberToBN_eval =
  numberToBN_def numberToBNString_def amountValue_def trim_def toLowerCase_def lowerChar_def
  isSpace_def stripHexPrefix_def matchesInteger_def matchesHex_def matchesHexLetters_def
  hexValue_def isDigit_def newBN10_def fromDecimal_def fromHex_def digitValue_def Let_def

text \<open>
  What \<open>numberToBN\<close> does with some strings and numbers: a sign, an empty string,
  hexadecimal digits with and without the prefix and surrounding white space are read
  (\<open>1e3\<close> as three hexadecimal digits); a decimal point, a plus sign, and a number
  that prints in exponent notation, are refused.
\<close>

lemma numberToBN_examples:
  "numberToBN (Str ''-5'') = Inr (- 5)"
  "numberToBN (Str []) = Inr 0"
  "numberToBN (Str ''0x10'') = Inr 16"
  "numberToBN (Str ''-0x10'') = Inr (- 16)"
  "numberToBN (Str ''12a'') = Inr 298"
  "numberToBN (Str '' 12 '') = Inr 12"
  "numberToBN (Str ''1e3'') = Inr 483"
  "numberToBN (Str ''1.5'') = Inl InvalidNumberValue"
  "numberToBN (Str ''+5'') = Inl InvalidNumberValue"
  "numberToBN (Native (- 5)) = Inr (- 5)"
  "numberToBN (Native 1000000000000000000000) = Inl InvalidNumberValue"
  by (simp_all add: numberToBN_eval)




section \<open>Properties of the memoised exit-game handle\<close>

lemma run_Calls_memo:
  "paymentExitGame s = Some h \<Longrightarrow>
   run s (replicate n Call) = Some (s\<lparr>callers := callers s @ replicate n (Returned h)\<rparr>)"
proof (induction n arbitrary: s)
  case 0
  then show ?case by simp
next
  case (Suc n)
  let ?s' = "s\<lparr>callers := callers s @ [Returned h]\<rparr>"
  have m: "paymentExitGame ?s' = Some h" using Suc.prems by simp
  have "run s (replicate (Suc n) Call) = run ?s' (replicate n Call)"
    using Suc.prems by simp
  also have "\<dots> = Some (?s'\<lparr>callers := callers ?s' @ replicate n (Returned h)\<rparr>)"
    using Suc.IH [OF m] .
  also have "\<dots> = Some (s\<lparr>callers := callers s @ replicate (Suc n) (Returned h)\<rparr>)"
    by (simp add: replicate_app_Cons_same)
  finally show ?case .
qed

lemma first_resolution:
  "run newClient [Call, AnswerExitGames 0 a, AnswerBondSizes 0 b0 b1 b2] =
     Some \<lparr>paymentExitGame =
              Some \<lparr>contract = a, address = a,
                    bonds = \<lparr>standardExit = b0, piggyback = b1, inflightExit = b2\<rparr>\<rparr>,
            lookups = 4,
            callers = [Returned \<lparr>contract = a, address = a,
                    bonds = \<lparr>standardExit = b0, piggyback = b1, inflightExit = b2\<rparr>\<rparr>]\<rparr>"
  by (simp add: newClient_def Let_def)

text \<open>
  C9 (as amended). The first call on a new client, left to complete, issues four
  on-chain lookups (the address and the three bond sizes) and stores the handle; from any
  state in which a handle is stored, any number of further calls issue no lookup, leave
  the stored handle as it is and each return it.
\<close>

theorem getPaymentExitGame_memoised:
  "run newClient [Call, AnswerExitGames 0 a, AnswerBondSizes 0 b0 b1 b2] =
     Some \<lparr>paymentExitGame =
              Some \<lparr>contract = a, address = a,
                    bonds = \<lparr>standardExit = b0, piggyback = b1, inflightExit = b2\<rparr>\<rparr>,
            lookups = 4,
            callers = [Returned \<lparr>contract = a, address = a,
                    bonds = \<lparr>standardExit = b0, piggyback = b1, inflightExit = b2\<rparr>\<rparr>]\<rparr>
   \<and> (paymentExitGame s = Some h \<longrightarrow>
        run s (replicate n Call) = Some (s\<lparr>callers := callers s @ replicate n (Returned h)\<rparr>))"
  using first_resolution run_Calls_memo by blast

theorem getPaymentExitGame_memoised_witness:
  "run \<lparr>paymentExitGame =
              Some \<lparr>contract = 7, address = 7,
                    bonds = \<lparr>standardExit = 1, piggyback = 2, inflightExit = 3\<rparr>\<rparr>,
            lookups = 4,
            callers = [Returned \<lparr>contract = 7, address = 7,
                    bonds = \<lparr>standardExit = 1, piggyback = 2, inflightExit = 3\<rparr>\<rparr>]\<rparr>
       [Call, Call]
   = Some \<lparr>paymentExitGame =
              Some \<lparr>contract = 7, address = 7,
                    bonds = \<lparr>standardExit = 1, piggyback = 2, inflightExit = 3\<rparr>\<rparr>,
            lookups = 4,
            callers = [Returned \<lparr>contract = 7, address = 7,
                    bonds = \<lparr>standardExit = 1, piggyback = 2, inflightExit = 3\<rparr>\<rparr>,
                 Returned \<lparr>contract = 7, address = 7,
                    bonds = \<lparr>standardExit = 1, piggyback = 2, inflightExit = 3\<rparr>\<rparr>,
                 Returned \<lparr>contract = 7, address = 7,
                    bonds = \<lparr>standardExit = 1, piggyback = 2, inflightExit = 3\<rparr>\<rparr>]\<rparr>"
  using getPaymentExitGame_memoised [of 7 1 2 3
      "\<lparr>paymentExitGame =
              Some \<lparr>contract = 7, address = 7,
                    bonds = \<lparr>standardExit = 1, piggyback = 2, inflightExit = 3\<rparr>\<rparr>,
            lookups = 4,
            callers = [Returned \<lparr>contract = 7, address = 7,
                    bonds = \<lparr>standardExit = 1, piggyback = 2, inflightExit = 3\<rparr>\<rparr>]\<rparr>"
      "\<lparr>contract = 7, address = 7,
                    bonds = \<lparr>standardExit = 1, piggyback = 2, inflightExit = 3\<rparr>\<rparr>" 2]
  by (simp add: numeral_2_eq_2)

text \<open>
  C9 as stated fails for callers that race the first resolution. Two calls made before
  the first answer arrives both find the field empty and both ask the chain: eight
  lookups instead of four, with the same answers. If the chain's answer changes between
  the two (here the third bond size), the two callers return different handles.
\<close>

theorem getPaymentExitGame_race_counterexample:
  "run newClient [Call, Call, AnswerExitGames 0 7, AnswerExitGames 1 7,
                  AnswerBondSizes 0 1 2 3, AnswerBondSizes 1 1 2 3] =
     Some \<lparr>paymentExitGame =
              Some \<lparr>contract = 7, address = 7,
                    bonds = \<lparr>standardExit = 1, piggyback = 2, inflightExit = 3\<rparr>\<rparr>,
            lookups = 8,
            callers = [Returned \<lparr>contract = 7, address = 7,
                    bonds = \<lparr>standardExit = 1, piggyback = 2, inflightExit = 3\<rparr>\<rparr>,
                 Returned \<lparr>contract = 7, address = 7,
                    bonds = \<lparr>standardExit = 1, piggyback = 2, inflightExit = 3\<rparr>\<rparr>]\<rparr>
   \<and> run newClient [Call, Call, AnswerExitGames 0 7, AnswerExitGames 1 7,
                  AnswerBondSizes 0 1 2 3, AnswerBondSizes 1 1 2 4] =
     Some \<lparr>paymentExitGame =
              Some \<lparr>contract = 7, address = 7,
                    bonds = \<lparr>standardExit = 1, piggyback = 2, inflightExit = 4\<rparr>\<rparr>,
            lookups = 8,
            callers = [Returned \<lparr>contract = 7, address = 7,
                    bonds = \<lparr>standardExit = 1, piggyback = 2, inflightExit = 3\<rparr>\<rparr>,
                 Returned \<lparr>contract = 7, address = 7,
                    bonds = \<lparr>standardExit = 1, piggyback = 2, inflightExit = 4\<rparr>\<rparr>]\<rparr>"
  by (simp add: newClient_def Let_def)

section \<open>Properties of the length-prefixed encoding\<close>

declare toBuffer.simps [simp del]

lemma unat_byte: "n < 256 \<Longrightarrow> unat (of_nat n :: byte) = n"
  by (simp add: unat_of_nat)

lemma unat_byte_less: "unat (b :: byte) < 256"
  using unsigned_less [of b, where 'a = nat] by simp

lemma bufferToInt_Nil: "bufferToInt [] = 0"
  by (simp add: bufferToInt_def)

lemma bufferToInt_snoc: "bufferToInt (bs @ [b]) = 256 * bufferToInt bs + unat b"
  by (simp add: bufferToInt_def)

lemma bufferToInt_zeros: "bufferToInt (replicate k 0 @ bs) = bufferToInt bs"
  by (induction k) (simp_all add: bufferToInt_def)

lemma bufferToInt_toBuffer: "bufferToInt (toBuffer n) = n"
proof (induction n rule: less_induct)
  case (less n)
  show ?case
  proof (cases "n = 0")
    case True
    then show ?thesis by (simp add: toBuffer.simps [of 0] bufferToInt_Nil)
  next
    case False
    then have ih: "bufferToInt (toBuffer (n div 256)) = n div 256"
      using less.IH [of "n div 256"] by simp
    have "toBuffer n = toBuffer (n div 256) @ [of_nat (n mod 256)]"
      using False by (subst toBuffer.simps) simp
    then have "bufferToInt (toBuffer n) = 256 * (n div 256) + unat (of_nat (n mod 256) :: byte)"
      by (simp only: bufferToInt_snoc ih)
    also have "unat (of_nat (n mod 256) :: byte) = n mod 256"
      by (rule unat_byte) simp
    also have "256 * (n div 256) + n mod 256 = n" by simp
    finally show ?thesis .
  qed
qed

lemma bufferToInt_setLengthLeft: "bufferToInt (setLengthLeft k bs) = bufferToInt bs"
  by (simp add: setLengthLeft_def bufferToInt_zeros)

lemma length_toBuffer: "n < 256 ^ k \<Longrightarrow> length (toBuffer n) \<le> k"
proof (induction k arbitrary: n)
  case 0
  then show ?case by (simp add: toBuffer.simps [of 0])
next
  case (Suc k)
  show ?case
  proof (cases "n = 0")
    case True
    then show ?thesis by (simp add: toBuffer.simps [of 0])
  next
    case False
    have "n div 256 < 256 ^ k" using Suc.prems by (simp add: less_mult_imp_div_less mult.commute)
    then have "length (toBuffer (n div 256)) \<le> k" by (rule Suc.IH)
    then show ?thesis using False by (subst toBuffer.simps) simp
  qed
qed

lemma length_toBuffer_pos: "0 < n \<Longrightarrow> 0 < length (toBuffer n)"
  by (subst toBuffer.simps) simp

text \<open>The header written by \<open>encodeLength\<close> is read back by the decoder.\<close>

lemma long_header:
  assumes "56 \<le> len" and "len < 2 ^ 64"
  shows "1 \<le> length (toBuffer len) \<and> length (toBuffer len) \<le> 8"
proof -
  have "len < (256::nat) ^ 8" using assms(2) by simp
  then have "length (toBuffer len) \<le> 8" by (rule length_toBuffer)
  moreover have "toBuffer len \<noteq> []"
    using assms(1) length_toBuffer_pos [of len] by simp
  then have "1 \<le> length (toBuffer len)" by (cases "toBuffer len") simp_all
  ultimately show ?thesis by simp
qed

lemma decodeHeader_single:
  "unat b < 128 \<Longrightarrow> decodeHeader (b # rest) = Some (False, 0, 1)"
  by (simp add: decodeHeader_def)

lemma decodeHeader_short:
  assumes "unat b = len + (if isList then 192 else 128)" and "len < 56"
  shows "decodeHeader (b # rest) = Some (isList, 1, len)"
  using assms by (simp add: decodeHeader_def)

lemma decodeHeader_long:
  assumes "unat b = ll + (if isList then 247 else 183)" and "1 \<le> ll" and "ll \<le> 8"
  shows "decodeHeader (b # rest) =
           Some (isList, 1 + ll, bufferToInt (take ll rest))"
  using assms by (simp add: decodeHeader_def)

lemma decodeHeader_short_bytes:
  assumes "len < 56"
  shows "decodeHeader (encodeLength len 128 @ rest) = Some (False, 1, len)"
proof -
  have p: "unat (of_nat (len + 128) :: byte) = len + (if False then 192 else 128)"
    using assms by (simp only: if_False) (intro unat_byte, simp)
  have e: "encodeLength len 128 @ rest = of_nat (len + 128) # rest"
    using assms by (simp add: encodeLength_def)
  show ?thesis unfolding e using p assms by (rule decodeHeader_short)
qed

lemma decodeHeader_short_list:
  assumes "len < 56"
  shows "decodeHeader (encodeLength len 192 @ rest) = Some (True, 1, len)"
proof -
  have p: "unat (of_nat (len + 192) :: byte) = len + (if True then 192 else 128)"
    using assms by (simp only: if_True) (intro unat_byte, simp)
  have e: "encodeLength len 192 @ rest = of_nat (len + 192) # rest"
    using assms by (simp add: encodeLength_def)
  show ?thesis unfolding e using p assms by (rule decodeHeader_short)
qed

lemma decodeHeader_long_bytes:
  assumes "56 \<le> len" and "len < 2 ^ 64"
  shows "decodeHeader (encodeLength len 128 @ rest)
           = Some (False, 1 + length (toBuffer len), len)"
proof -
  let ?bl = "toBuffer len"
  have l: "1 \<le> length ?bl \<and> length ?bl \<le> 8" using assms by (rule long_header)
  have "unat (of_nat (length ?bl + 128 + 55) :: byte) = length ?bl + 128 + 55"
    using l by (intro unat_byte) simp
  then have p: "unat (of_nat (length ?bl + 128 + 55) :: byte)
                  = length ?bl + (if False then 247 else 183)"
    by (simp only: if_False)
  have e: "encodeLength len 128 @ rest = of_nat (length ?bl + 128 + 55) # (?bl @ rest)"
    using assms(1) by (simp add: encodeLength_def Let_def)
  have "decodeHeader (of_nat (length ?bl + 128 + 55) # (?bl @ rest))
          = Some (False, 1 + length ?bl, bufferToInt (take (length ?bl) (?bl @ rest)))"
    using p l by (intro decodeHeader_long) simp_all
  then show ?thesis unfolding e by (simp add: bufferToInt_toBuffer)
qed

lemma decodeHeader_long_list:
  assumes "56 \<le> len" and "len < 2 ^ 64"
  shows "decodeHeader (encodeLength len 192 @ rest)
           = Some (True, 1 + length (toBuffer len), len)"
proof -
  let ?bl = "toBuffer len"
  have l: "1 \<le> length ?bl \<and> length ?bl \<le> 8" using assms by (rule long_header)
  have "unat (of_nat (length ?bl + 192 + 55) :: byte) = length ?bl + 192 + 55"
    using l by (intro unat_byte) simp
  then have p: "unat (of_nat (length ?bl + 192 + 55) :: byte)
                  = length ?bl + (if True then 247 else 183)"
    by (simp only: if_True)
  have e: "encodeLength len 192 @ rest = of_nat (length ?bl + 192 + 55) # (?bl @ rest)"
    using assms(1) by (simp add: encodeLength_def Let_def)
  have "decodeHeader (of_nat (length ?bl + 192 + 55) # (?bl @ rest))
          = Some (True, 1 + length ?bl, bufferToInt (take (length ?bl) (?bl @ rest)))"
    using p l by (intro decodeHeader_long) simp_all
  then show ?thesis unfolding e by (simp add: bufferToInt_toBuffer)
qed

lemma length_encodeLength:
  "length (encodeLength len k) = (if len < 56 then 1 else 1 + length (toBuffer len))"
  by (simp add: encodeLength_def Let_def)

lemma decodeHeader_bytes:
  assumes "len < 2 ^ 64"
  shows "decodeHeader (encodeLength len 128 @ rest)
           = Some (False, length (encodeLength len 128), len)"
proof (cases "len < 56")
  case True
  then show ?thesis by (simp add: decodeHeader_short_bytes length_encodeLength)
next
  case False
  then show ?thesis using assms by (simp add: decodeHeader_long_bytes length_encodeLength)
qed

lemma decodeHeader_list:
  assumes "len < 2 ^ 64"
  shows "decodeHeader (encodeLength len 192 @ rest)
           = Some (True, length (encodeLength len 192), len)"
proof (cases "len < 56")
  case True
  then show ?thesis by (simp add: decodeHeader_short_list length_encodeLength)
next
  case False
  then show ?thesis using assms by (simp add: decodeHeader_long_list length_encodeLength)
qed

lemma decodeItem_bytes:
  assumes "length bs < 2 ^ 64"
  shows "decodeItem (Suc fuel) (rlpEncode (RlpBytes bs) @ rest) = Some (RlpBytes bs, rest)"
proof (cases "length bs = 1 \<and> unat (hd bs) < 128")
  case True
  then obtain b where b: "bs = [b]" by (cases bs) auto
  have "decodeHeader (b # rest) = Some (False, 0, 1)"
    using True b by (simp add: decodeHeader_single)
  then show ?thesis using True b by simp
next
  case False
  let ?h = "encodeLength (length bs) 128"
  have e: "rlpEncode (RlpBytes bs) @ rest = ?h @ (bs @ rest)" using False by auto
  have h: "decodeHeader (?h @ (bs @ rest)) = Some (False, length ?h, length bs)"
    using assms by (rule decodeHeader_bytes)
  show ?thesis unfolding e by (simp add: h)
qed

lemma decodeItem_list:
  assumes "length payload < 2 ^ 64" and "decodeItems fuel payload = Some xs"
  shows "decodeItem (Suc fuel) ((encodeLength (length payload) 192 @ payload) @ rest)
           = Some (RlpList xs, rest)"
proof -
  let ?h = "encodeLength (length payload) 192"
  have h: "decodeHeader (?h @ (payload @ rest)) = Some (True, length ?h, length payload)"
    using assms(1) by (rule decodeHeader_list)
  show ?thesis using assms(2) by (simp add: h)
qed

lemma rlpEncode_nonempty: "rlpEncode x \<noteq> []"
  by (cases x) (auto simp: encodeLength_def Let_def)

lemma length_rlpEncode_pos: "1 \<le> length (rlpEncode x)"
  using rlpEncode_nonempty [of x] by (cases "rlpEncode x") simp_all

lemma length_encodeLength_pos: "1 \<le> length (encodeLength len k)"
  by (simp add: length_encodeLength)

lemma length_member_concat:
  "x \<in> set xs \<Longrightarrow> length (f x) \<le> length (concat (map f xs))"
  by (induction xs) auto

lemma decodeItems_concat:
  assumes "\<And>x fuel rest. x \<in> set xs \<Longrightarrow> length (rlpEncode x @ rest) \<le> fuel \<Longrightarrow>
             decodeItem fuel (rlpEncode x @ rest) = Some (x, rest)"
    and "length (concat (map rlpEncode xs)) \<le> fuel"
  shows "decodeItems fuel (concat (map rlpEncode xs)) = Some xs"
  using assms
proof (induction xs arbitrary: fuel)
  case Nil
  then show ?case by (cases fuel) simp_all
next
  case (Cons x xs)
  let ?rest = "concat (map rlpEncode xs)"
  have ne: "rlpEncode x @ ?rest \<noteq> []" using rlpEncode_nonempty [of x] by simp
  have pos: "1 \<le> length (rlpEncode x)" by (rule length_rlpEncode_pos)
  have tot: "length (rlpEncode x) + length ?rest \<le> fuel" using Cons.prems(2) by simp
  obtain f where f: "fuel = Suc f" using tot pos by (cases fuel) auto
  have len: "length (rlpEncode x @ ?rest) \<le> Suc f" using Cons.prems(2) f by simp
  have item: "decodeItem (Suc f) (rlpEncode x @ ?rest) = Some (x, ?rest)"
    using Cons.prems(1) [of x ?rest "Suc f"] len by simp
  have "length ?rest \<le> f" using tot pos unfolding f by linarith
  then have items: "decodeItems f ?rest = Some xs"
    using Cons.IH [of f] Cons.prems(1) by simp
  show ?case using ne item items unfolding f by simp
qed

lemma decodeItem_rlpEncode:
  "length (rlpEncode x) < 2 ^ 64 \<Longrightarrow> length (rlpEncode x @ rest) \<le> fuel \<Longrightarrow>
   decodeItem fuel (rlpEncode x @ rest) = Some (x, rest)"
proof (induction x arbitrary: fuel rest)
  case (RlpBytes bs)
  have "1 \<le> length (rlpEncode (RlpBytes bs))" by (rule length_rlpEncode_pos)
  then obtain f where f: "fuel = Suc f" using RlpBytes.prems(2) by (cases fuel) auto
  have "length bs \<le> length (rlpEncode (RlpBytes bs))" by auto
  then have "length bs < 2 ^ 64" using RlpBytes.prems(1) by simp
  then show ?case unfolding f by (rule decodeItem_bytes)
next
  case (RlpList xs)
  let ?payload = "concat (map rlpEncode xs)"
  have e: "rlpEncode (RlpList xs) = encodeLength (length ?payload) 192 @ ?payload"
    by (simp add: Let_def)
  have "1 \<le> length (rlpEncode (RlpList xs))" by (rule length_rlpEncode_pos)
  then obtain f where f: "fuel = Suc f" using RlpList.prems(2) by (cases fuel) auto
  have pl: "length ?payload < 2 ^ 64" using RlpList.prems(1) unfolding e by simp
  have hl: "1 \<le> length (encodeLength (length ?payload) 192)"
    by (rule length_encodeLength_pos)
  have "length (encodeLength (length ?payload) 192) + length ?payload \<le> Suc f"
    using RlpList.prems(2) unfolding e f by simp
  then have pf: "length ?payload \<le> f" using hl by linarith
  have sub: "decodeItem fuel' (rlpEncode x @ rest') = Some (x, rest')"
    if "x \<in> set xs" and "length (rlpEncode x @ rest') \<le> fuel'" for x fuel' rest'
  proof -
    have "length (rlpEncode x) \<le> length ?payload" using that(1) by (rule length_member_concat)
    then have "length (rlpEncode x) < 2 ^ 64" using pl by simp
    then show ?thesis using RlpList.IH that by blast
  qed
  have items: "decodeItems f ?payload = Some xs"
    using sub pf by (rule decodeItems_concat)
  show ?case unfolding e f using pl items by (rule decodeItem_list)
qed

lemma rlpDecode_rlpEncode:
  "length (rlpEncode x) < 2 ^ 64 \<Longrightarrow> rlpDecode (rlpEncode x) = Some x"
  using decodeItem_rlpEncode [of x "[]" "length (rlpEncode x)"] by (simp add: rlpDecode_def)

section \<open>Properties of the hexadecimal conversions\<close>

lemma less_16_cases:
  assumes "n < (16::nat)"
  shows "(n = 15 \<or> n = 14 \<or> n = 13 \<or> n = 12) \<or> (n = 11 \<or> n = 10 \<or> n = 9 \<or> n = 8)
       \<or> (n = 7 \<or> n = 6 \<or> n = 5 \<or> n = 4) \<or> (n = 3 \<or> n = 2 \<or> n = 1 \<or> n = 0)"
  using assms by arith

lemma hexValue_digit:
  assumes "n < 16"
  shows "hexValue (digit n) = Some n"
  using less_16_cases [OF assms] by (elim disjE) (simp_all add: hexValue_def digit_def)

lemma digit_not_x:
  assumes "n < 16"
  shows "digit n \<noteq> CHR ''x''"
  using less_16_cases [OF assms] by (elim disjE) (simp_all add: digit_def)

lemma hexValue_lowerChar:
  assumes "hexValue ch = Some a"
  shows "a < 16" and "digit a = lowerChar ch"
  using assms by (auto simp: hexValue_def digit_def lowerChar_def split: if_splits)

lemma byte_split: "(of_nat (16 * (unat b div 16) + unat b mod 16) :: byte) = b"
  by simp

lemma byte_join:
  assumes "a < 16" and "b < 16"
  shows "unat (of_nat (16 * a + b) :: byte) = 16 * a + b"
  using assms by (intro unat_byte) simp

lemma hexToBytes_byteToHex: "hexToBytes (byteToHex b @ rest) = b # hexToBytes rest"
proof -
  have hi: "unat b div 16 < 16" using unat_byte_less [of b] by simp
  have lo: "unat b mod 16 < 16" by simp
  show ?thesis
    by (simp only: byteToHex_def append_Cons append_Nil hexToBytes.simps
        hexValue_digit [OF hi] hexValue_digit [OF lo] prod.case option.case byte_split)
qed

lemma hexToBytes_bytesToHex: "hexToBytes (bytesToHex bs) = bs"
proof (induction bs)
  case Nil
  show ?case by (simp add: bytesToHex_def)
next
  case (Cons b bs)
  have "bytesToHex (b # bs) = byteToHex b @ bytesToHex bs" by (simp add: bytesToHex_def)
  then show ?case by (simp only: hexToBytes_byteToHex Cons.IH)
qed

lemma bytesToHex_no_prefix: "take 2 (bytesToHex bs) \<noteq> ''0x''"
proof (cases bs)
  case Nil
  then show ?thesis by (simp add: bytesToHex_def)
next
  case (Cons b bs')
  have lo: "unat b mod 16 < 16" by simp
  show ?thesis using digit_not_x [OF lo] by (simp add: Cons bytesToHex_def byteToHex_def)
qed

lemma hexPrefix_bytesToHex: "hexPrefix (bytesToHex bs) = ''0x'' @ bytesToHex bs"
  by (simp add: hexPrefix_def bytesToHex_no_prefix)

lemma stripHexPrefix_0x: "stripHexPrefix (''0x'' @ s) = s"
  by (simp add: stripHexPrefix_def)

lemma byteToHex_join:
  assumes "a < 16" and "b < 16"
  shows "byteToHex (of_nat (16 * a + b)) = [digit a, digit b]"
  using assms by (simp only: byteToHex_def byte_join) simp

lemma bytesToHex_hexToBytes:
  "list_all (\<lambda>ch. hexValue ch \<noteq> None) h \<Longrightarrow> even (length h) \<Longrightarrow>
   bytesToHex (hexToBytes h) = toLowerCase h"
proof (induction h rule: hexToBytes.induct)
  case (1 x y rest)
  obtain a where a: "hexValue x = Some a" using "1.prems"(1) by auto
  obtain b where b: "hexValue y = Some b" using "1.prems"(1) by auto
  have al: "a < 16" "digit a = lowerChar x" using a by (rule hexValue_lowerChar)+
  have bl: "b < 16" "digit b = lowerChar y" using b by (rule hexValue_lowerChar)+
  have r: "list_all (\<lambda>ch. hexValue ch \<noteq> None) rest" "even (length rest)"
    using "1.prems" by simp_all
  have ih: "bytesToHex (hexToBytes rest) = toLowerCase rest"
    using "1.IH" [of "hexValue x" "hexValue y" a b] r a b by simp
  have "hexToBytes (x # y # rest) = of_nat (16 * a + b) # hexToBytes rest"
    by (simp only: hexToBytes.simps a b prod.case option.case)
  then have "bytesToHex (hexToBytes (x # y # rest)) =
      byteToHex (of_nat (16 * a + b)) @ bytesToHex (hexToBytes rest)"
    by (simp only: bytesToHex_def list.map concat.simps)
  also have "\<dots> = [digit a, digit b] @ toLowerCase rest"
    by (simp only: byteToHex_join [OF al(1) bl(1)] ih)
  finally show ?case using al bl by (simp add: toLowerCase_def)
qed (simp_all add: bytesToHex_def toLowerCase_def)

lemma length_hexToBytes:
  "list_all (\<lambda>ch. hexValue ch \<noteq> None) h \<Longrightarrow> length (hexToBytes h) = length h div 2"
proof (induction h rule: hexToBytes.induct)
  case (1 x y rest)
  obtain a where a: "hexValue x = Some a" using "1.prems"(1) by auto
  obtain b where b: "hexValue y = Some b" using "1.prems"(1) by auto
  have r: "list_all (\<lambda>ch. hexValue ch \<noteq> None) rest" using "1.prems" by simp
  have ih: "length (hexToBytes rest) = length rest div 2"
    using "1.IH" [of "hexValue x" "hexValue y" a b] r a b by simp
  show ?case using a b ih by simp
qed simp_all

text \<open>
  A string of \<open>2n\<close> hexadecimal digits, with or without \<open>0x\<close>, is read as \<open>n\<close> bytes,
  which print as \<open>0x\<close> and the same digits in lower case, and these are read as the
  same bytes.
\<close>

lemma parseString_hex:
  assumes "isHexString n s"
  shows "parseString (hexToBytes (stripHexPrefix s)) = lowerHex s"
    and "length (hexToBytes (stripHexPrefix s)) = n"
    and "hexToBytes (stripHexPrefix (lowerHex s)) = hexToBytes (stripHexPrefix s)"
proof -
  have l: "length (stripHexPrefix s) = 2 * n"
    and h: "list_all (\<lambda>ch. hexValue ch \<noteq> None) (stripHexPrefix s)"
    using assms by (simp_all add: isHexString_def)
  have ev: "even (length (stripHexPrefix s))" using l by simp
  have low: "bytesToHex (hexToBytes (stripHexPrefix s)) = toLowerCase (stripHexPrefix s)"
    using h ev by (rule bytesToHex_hexToBytes)
  show "parseString (hexToBytes (stripHexPrefix s)) = lowerHex s"
    by (simp add: parseString_def lowerHex_def low)
  show "length (hexToBytes (stripHexPrefix s)) = n"
    using length_hexToBytes [OF h] l by simp
  have "hexToBytes (stripHexPrefix (lowerHex s)) = hexToBytes (toLowerCase (stripHexPrefix s))"
    by (simp only: lowerHex_def stripHexPrefix_0x)
  also have "\<dots> = hexToBytes (stripHexPrefix s)"
    by (simp only: low [symmetric] hexToBytes_bytesToHex)
  finally show "hexToBytes (stripHexPrefix (lowerHex s)) = hexToBytes (stripHexPrefix s)" .
qed

section \<open>Properties of the transaction codec\<close>

lemma utxoPos_parts:
  assumes "t < 100000" and "out < 10000"
  shows "(b * 1000000000 + t * 10000 + out) div 1000000000 = (b::nat)"
    and "((b * 1000000000 + t * 10000 + out) mod 1000000000) div 10000 = t"
    and "(b * 1000000000 + t * 10000 + out) mod 10000 = out"
proof -
  have r: "t * 10000 + out < 1000000000" using assms by simp
  have e: "b * 1000000000 + t * 10000 + out = (t * 10000 + out) + b * 1000000000" by simp
  show "(b * 1000000000 + t * 10000 + out) div 1000000000 = b"
    unfolding e using r by simp
  have m: "(b * 1000000000 + t * 10000 + out) mod 1000000000 = t * 10000 + out"
    unfolding e using r by simp
  show "((b * 1000000000 + t * 10000 + out) mod 1000000000) div 10000 = t"
    unfolding m using assms(2) by simp
  have "b * 1000000000 + t * 10000 + out = out + (b * 100000 + t) * 10000" by simp
  then show "(b * 1000000000 + t * 10000 + out) mod 10000 = out"
    using assms(2) by (simp only: mod_mult_self1) simp
qed

lemma decodeUtxoPos_encodeUtxoPos:
  assumes "txindex i < 100000" and "oindex i < 10000"
  shows "decodeUtxoPos (encodeUtxoPos i) = i"
  using utxoPos_parts [OF assms, of "blknum i"]
  by (simp add: decodeUtxoPos_def encodeUtxoPos_def BLOCK_OFFSET_def TX_OFFSET_def)

lemma isDigit_cases:
  assumes "isDigit ch"
  shows "(ch = CHR ''0'' \<or> ch = CHR ''1'' \<or> ch = CHR ''2'' \<or> ch = CHR ''3'' \<or> ch = CHR ''4'')
       \<or> (ch = CHR ''5'' \<or> ch = CHR ''6'' \<or> ch = CHR ''7'' \<or> ch = CHR ''8'' \<or> ch = CHR ''9'')"
  using assms by (simp add: isDigit_def)

lemma isDigit_props:
  assumes "isDigit ch"
  shows "lowerChar ch = ch" and "\<not> isSpace ch" and "ch \<noteq> CHR ''x''" and "ch \<noteq> CHR ''-''"
    and "ch \<notin> set ''abcdefABCDEF''"
proof -
  show "lowerChar ch = ch"
    using isDigit_cases [OF assms] by (elim disjE) (simp_all add: lowerChar_def)
  show "\<not> isSpace ch"
    using isDigit_cases [OF assms] by (elim disjE) (simp_all add: isSpace_def)
  show "ch \<noteq> CHR ''x''"
    using isDigit_cases [OF assms] by (elim disjE) simp_all
  show "ch \<noteq> CHR ''-''"
    using isDigit_cases [OF assms] by (elim disjE) simp_all
  show "ch \<notin> set ''abcdefABCDEF''"
    using isDigit_cases [OF assms] by (elim disjE) simp_all
qed

lemma dropWhile_hd: "xs \<noteq> [] \<Longrightarrow> \<not> P (hd xs) \<Longrightarrow> dropWhile P xs = xs"
  by (cases xs) simp_all

text \<open>\<open>numberToBN\<close> reads a non-empty string of digits in base 10.\<close>

lemma numberToBNString_digits:
  assumes "s \<noteq> []" and "list_all isDigit s"
  shows "numberToBNString s = Inr (int (fromDecimal s))"
proof -
  have all: "isDigit ch" if "ch \<in> set s" for ch
    using assms(2) that by (simp add: list_all_iff)
  have "map lowerChar s = map (\<lambda>ch. ch) s"
    by (rule map_cong) (simp_all add: all isDigit_props(1))
  then have low: "toLowerCase s = s" by (simp add: toLowerCase_def)
  have ends: "isDigit (hd s)" "isDigit (last s)" using assms(1) all by simp_all
  have fr: "dropWhile isSpace s = s"
    using assms(1) ends(1) by (simp add: dropWhile_hd isDigit_props(2))
  have bk: "dropWhile isSpace (rev s) = rev s"
    using assms(1) ends(2) by (simp add: dropWhile_hd isDigit_props(2) hd_rev)
  have tr: "trim s = s" by (simp add: trim_def fr bk)
  have no: "ch \<notin> set s" if "\<not> isDigit ch" for ch using all that by blast
  have x: "CHR ''x'' \<notin> set s" by (rule no) (simp add: isDigit_def)
  have m: "CHR ''-'' \<notin> set s" by (rule no) (simp add: isDigit_def)
  have p2: "take 2 s \<noteq> ''0x''"
  proof
    assume "take 2 s = ''0x''"
    then have "CHR ''x'' \<in> set (take 2 s)" by simp
    then show False using x in_set_takeD by fastforce
  qed
  have p3: "take 3 s \<noteq> ''-0x''"
  proof
    assume "take 3 s = ''-0x''"
    then have "CHR ''x'' \<in> set (take 3 s)" by simp
    then show False using x in_set_takeD by fastforce
  qed
  have p1: "take 1 s \<noteq> ''-''"
  proof
    assume "take 1 s = ''-''"
    then have "CHR ''-'' \<in> set (take 1 s)" by simp
    then show False using m in_set_takeD by fastforce
  qed
  have mi: "matchesInteger s" using assms p1 by (simp add: matchesInteger_def)
  have "\<not> list_all (\<lambda>ch. ch \<in> set ''abcdefABCDEF'') s"
  proof
    assume "list_all (\<lambda>ch. ch \<in> set ''abcdefABCDEF'') s"
    then have "hd s \<in> set ''abcdefABCDEF''" using assms(1) by (simp add: list_all_iff)
    then show False using isDigit_props(5) [OF ends(1)] by simp
  qed
  then have nl: "\<not> matchesHexLetters s" by (simp add: matchesHexLetters_def)
  have st: "stripHexPrefix s = s" using p2 by (simp add: stripHexPrefix_def)
  show ?thesis
    using assms(1) p1 p2 p3 mi nl
    by (simp add: numberToBNString_def low tr st newBN10_def)
qed

lemma numberToBN_decimal: "numberToBN (Str (toStringBase 10 n)) = Inr (int n)"
  using decimal_toStringBase [of n] by (simp add: numberToBN_def numberToBNString_digits)


lemma rlpToInput_inputToRlp:
  "validInput i \<Longrightarrow> rlpToInput (inputToRlp i) = Some i"
  by (simp add: inputToRlp_def validInput_def bufferToInt_setLengthLeft bufferToInt_toBuffer
      decodeUtxoPos_encodeUtxoPos)

lemma rlpToOutput_outputToRlp:
  assumes "validOutput out"
  shows "rlpToOutput (outputToRlp out) = Some (decodedOutput out)"
proof -
  have "isHexString 20 (outputGuard out)" using assms by (simp add: validOutput_def)
  then have g: "parseString (hexToBytes (stripHexPrefix (outputGuard out)))
             = lowerHex (outputGuard out)"
    by (rule parseString_hex(1))
  have "isHexString 20 (tx_output.currency out)" using assms by (simp add: validOutput_def)
  then have c: "parseString (hexToBytes (stripHexPrefix (tx_output.currency out)))
             = lowerHex (tx_output.currency out)"
    by (rule parseString_hex(1))
  show ?thesis
    by (simp add: outputToRlp_def addressToRlp_def decodedOutput_def parseNumber_def
          bufferToInt_toBuffer g c)
qed

lemma allSome_map:
  "(\<And>x. x \<in> set xs \<Longrightarrow> f x = Some (g x)) \<Longrightarrow> allSome (map f xs) = Some (map g xs)"
  by (induction xs) simp_all

lemma rlpToTx_txToRlp:
  assumes "validTx tx"
  shows "rlpToTx (txToRlp tx) = Some (decodedForm tx)"
proof -
  have "allSome (map (rlpToInput \<circ> inputToRlp) (inputs tx)) = Some (map id (inputs tx))"
    using assms
    by (intro allSome_map) (simp add: validTx_def list_all_iff rlpToInput_inputToRlp)
  then have ins: "allSome (map (rlpToInput \<circ> inputToRlp) (inputs tx)) = Some (inputs tx)"
    by simp
  have outs: "allSome (map (rlpToOutput \<circ> outputToRlp) (outputs tx))
                = Some (map decodedOutput (outputs tx))"
    using assms
    by (intro allSome_map) (simp add: validTx_def list_all_iff rlpToOutput_outputToRlp)
  have d: "bufferToInt (case txData tx of None \<Rightarrow> [] | Some d \<Rightarrow> toBuffer d)
             = (case txData tx of None \<Rightarrow> 0 | Some d \<Rightarrow> d)"
    by (simp add: bufferToInt_Nil bufferToInt_toBuffer split: option.split)
  show ?thesis
  proof (cases "metadata tx")
    case None
    then show ?thesis
      by (simp add: txToRlp_def decodedForm_def ins outs d parseNumber_def bufferToInt_toBuffer)
  next
    case (Some m)
    then have h: "isHexString 32 m" using assms by (simp add: validTx_def)
    have p: "parseString (hexToBytes (stripHexPrefix m)) = lowerHex m"
      using h by (rule parseString_hex(1))
    have "length (hexToBytes (stripHexPrefix m)) = 32"
      using h by (rule parseString_hex(2))
    then have ne: "hexToBytes (stripHexPrefix m) \<noteq> []" by auto
    show ?thesis
      using Some
      by (simp add: txToRlp_def decodedForm_def addressToRlp_def ins outs d parseNumber_def
          bufferToInt_toBuffer p ne)
  qed
qed

lemma decode_encode:
  assumes "validTx tx" and "length (rlpEncode (txToRlp tx)) < 2 ^ 64"
  shows "decodeTxBytes (encode tx) = Inr (decodedForm tx)"
proof -
  have "hexToBytes (stripHexPrefix (encode tx)) = rlpEncode (txToRlp tx)"
    by (simp only: encode_def hexPrefix_bytesToHex stripHexPrefix_0x hexToBytes_bytesToHex)
  then show ?thesis
    using rlpDecode_rlpEncode [OF assms(2)] rlpToTx_txToRlp [OF assms(1)]
    by (simp add: decodeTxBytes_def)
qed


section \<open>The deposit position of \<open>getDepositExitData\<close>\<close>

lemma bitLength_0: "bitLength 0 = 0"
  by (subst bitLength.simps) simp

lemma bitLength_pos: "0 < n \<Longrightarrow> bitLength n = Suc (bitLength (n div 2))"
  by (subst bitLength.simps) simp

lemma bitLength_le: "n < 2 ^ k \<Longrightarrow> bitLength n \<le> k"
proof (induction k arbitrary: n)
  case 0
  then show ?case by (simp add: bitLength_0)
next
  case (Suc k)
  show ?case
  proof (cases "n = 0")
    case True
    then show ?thesis by (simp add: bitLength_0)
  next
    case False
    have "n div 2 < 2 ^ k" using Suc.prems by simp
    then have "bitLength (n div 2) \<le> k" by (rule Suc.IH)
    then show ?thesis using False by (simp add: bitLength_pos)
  qed
qed

lemma toDouble_multiple:
  assumes "2 ^ (bitLength n - 53) dvd n"
  shows "toDouble n = n"
  using assms by (simp add: toDouble_def Let_def)

text \<open>
  Up to block 4611686018, where the product stays below \<open>2^62\<close>, the product of the
  doubles is exact (the factor \<open>1000000000\<close> is a multiple of \<open>2^9\<close>), and is the
  position of the codec.
\<close>

lemma depositUtxoPos_exact:
  assumes "b \<le> 4611686018"
  shows "depositUtxoPos b = encodeUtxoPos \<lparr>blknum = b, txindex = 0, oindex = 0\<rparr>"
proof -
  have "b * 1000000000 < 2 ^ 62" using assms by simp
  then have "bitLength (b * 1000000000) \<le> 62" by (rule bitLength_le)
  then have "bitLength (b * 1000000000) - 53 \<le> 9" by simp
  then have "(2::nat) ^ (bitLength (b * 1000000000) - 53) dvd 2 ^ 9"
    by (rule le_imp_power_dvd)
  moreover have "(2::nat) ^ 9 dvd b * 1000000000"
  proof -
    have "b * 1000000000 = 2 ^ 9 * (b * 1953125)" by simp
    then show ?thesis by (rule dvdI)
  qed
  ultimately have "2 ^ (bitLength (b * 1000000000) - 53) dvd b * 1000000000"
    by (rule dvd_trans)
  then have "toDouble (b * 1000000000) = b * 1000000000" by (rule toDouble_multiple)
  then show ?thesis
    by (simp add: depositUtxoPos_def encodeUtxoPos_def BLOCK_OFFSET_def TX_OFFSET_def)
qed

text \<open>
  C4. The position that \<open>getDepositExitData\<close> computes is not the exact one over the
  whole range of the claim. At \<open>blknum = 2^48 - 1\<close> the exact position of output 0 of
  transaction 0 is 281474976710655000000000, which decodes to the triple it was made
  from; the product of the two doubles is 281474976710654993367040, which decodes to
  another block. The first block number at which the two differ is 4611686019.
\<close>

theorem getDepositExitData_position_inexact:
  "encodeUtxoPos \<lparr>blknum = 281474976710655, txindex = 0, oindex = 0\<rparr>
     = 281474976710655000000000
   \<and> decodeUtxoPos (encodeUtxoPos \<lparr>blknum = 281474976710655, txindex = 0, oindex = 0\<rparr>)
     = \<lparr>blknum = 281474976710655, txindex = 0, oindex = 0\<rparr>
   \<and> depositUtxoPos 281474976710655 = 281474976710654993367040
   \<and> decodeUtxoPos (depositUtxoPos 281474976710655)
     = \<lparr>blknum = 281474976710654, txindex = 99336, oindex = 7040\<rparr>
   \<and> depositUtxoPos 4611686018 = 4611686018000000000
   \<and> depositUtxoPos 4611686019 = 4611686019000000512"
proof -
  have e: "encodeUtxoPos \<lparr>blknum = 281474976710655, txindex = 0, oindex = 0\<rparr>
     = 281474976710655000000000"
    by (simp add: encodeUtxoPos_def BLOCK_OFFSET_def TX_OFFSET_def)
  have d: "decodeUtxoPos 281474976710655000000000
     = \<lparr>blknum = 281474976710655, txindex = 0, oindex = 0\<rparr>"
    by (simp add: decodeUtxoPos_def BLOCK_OFFSET_def TX_OFFSET_def)
  have l: "bitLength 281474976710655000000000 = 78"
    by (simp add: bitLength_pos bitLength_0)
  have p: "depositUtxoPos 281474976710655 = 281474976710654993367040"
    by (simp add: depositUtxoPos_def toDouble_def l Let_def)
  have q: "decodeUtxoPos 281474976710654993367040
     = \<lparr>blknum = 281474976710654, txindex = 99336, oindex = 7040\<rparr>"
    by (simp add: decodeUtxoPos_def BLOCK_OFFSET_def TX_OFFSET_def)
  have l1: "bitLength 4611686018000000000 = 62"
    by (simp add: bitLength_pos bitLength_0)
  have p1: "depositUtxoPos 4611686018 = 4611686018000000000"
    by (simp add: depositUtxoPos_def toDouble_def l1 Let_def)
  have l2: "bitLength 4611686019000000000 = 63"
    by (simp add: bitLength_pos bitLength_0)
  have p2: "depositUtxoPos 4611686019 = 4611686019000000512"
    by (simp add: depositUtxoPos_def toDouble_def l2 Let_def)
  show ?thesis by (simp only: e d p q p1 p2 simp_thms)
qed

section \<open>The codec on the package's tests, and the claims about it\<close>

lemma toBuffer_0: "toBuffer 0 = []"
  by (simp add: toBuffer.simps [of 0])

lemma toBuffer_pos: "0 < n \<Longrightarrow> toBuffer n = toBuffer (n div 256) @ [of_nat (n mod 256)]"
  by (subst toBuffer.simps) simp

lemma replicate_numeral_unfold:
  "replicate (numeral k) x = x # replicate (pred_numeral k) x"
  by (simp add: numeral_eq_Suc)

lemmas codec_eval = replicate_numeral_unfold
  encodeDeposit_def encode_def txToRlp_def outputToRlp_def inputToRlp_def addressToRlp_def
  encodeUtxoPos_def BLOCK_OFFSET_def TX_OFFSET_def setLengthLeft_def
  hexPrefix_def stripHexPrefix_def hexValue_def ETH_CURRENCY_def NULL_METADATA_def
  NULL_ADDRESS_def numberToBN_eval
  toBuffer_0 toBuffer_pos encodeLength_def bytesToHex_def byteToHex_def digit_def Let_def

text \<open>
  The expected encodings of the package's tests. The amount 500000000000000123 of the
  first test is not a safe integer: as a JavaScript number it prints as
  500000000000000100, which is what \<open>numberToBN\<close> reads and the expected bytes
  hold.
\<close>

lemma encode_test_no_outputs:
  "encode \<lparr>txType = 1, inputs = [\<lparr>blknum = 19774001, txindex = 0, oindex = 0\<rparr>],
           outputs = [], txData = Some 0, metadata = None\<rparr>
   = ''0xe601e1a0000000000000000000000000000000000000000000000000004640596164aa00c08080''"
  by (simp add: codec_eval)

lemma encode_test_one_input_one_output:
  "encode \<lparr>txType = 1, inputs = [\<lparr>blknum = 19774001, txindex = 0, oindex = 0\<rparr>],
           outputs = [\<lparr>outputType = 1,
                       outputGuard = ''0xf4ebbe787311bb955bb353b7a4d8b97af8ed1c9b'',
                       currency = ''0x0000000000000000000000000000000000000000'',
                       amount = Native 500000000000000100\<rparr>],
           txData = None, metadata = None\<rparr>
   = ''0xf85c01e1a0000000000000000000000000000000000000000000000000004640596164aa00f6f501f394f4ebbe787311bb955bb353b7a4d8b97af8ed1c9b9400000000000000000000000000000000000000008806f05b59d3b200648080''"
  by (simp add: codec_eval)

lemma encode_test_four_inputs_four_outputs:
  "encode \<lparr>txType = 1,
           inputs = [\<lparr>blknum = 19774001, txindex = 0, oindex = 0\<rparr>,
                     \<lparr>blknum = 19774002, txindex = 0, oindex = 0\<rparr>,
                     \<lparr>blknum = 19774002, txindex = 0, oindex = 1\<rparr>,
                     \<lparr>blknum = 19774002, txindex = 10, oindex = 0\<rparr>],
           outputs = [\<lparr>outputType = 1,
                       outputGuard = ''0xf4ebbe787311bb955bb353b7a4d8b97af8ed1c9b'',
                       currency = ''0x0000000000000000000000000000000000000000'',
                       amount = Native 1000000000000000000\<rparr>,
                      \<lparr>outputType = 1,
                       outputGuard = ''0x3272ee86d8192f59261960c9ae186063c8c9041f'',
                       currency = ''0x0000000000000000000000000000000000000000'',
                       amount = Native 1000000000000000000\<rparr>,
                      \<lparr>outputType = 1,
                       outputGuard = ''0x99d7b5c57c16acb24a327a37356a804a2f75dade'',
                       currency = ''0x0000000000000000000000000000000000000000'',
                       amount = Native 100000000\<rparr>,
                      \<lparr>outputType = 1,
                       outputGuard = ''0xbfdf85743ef16cfb1f8d4dd1dfc74c51dc496434'',
                       currency = ''0x0000000000000000000000000000000000000000'',
                       amount = Native 100\<rparr>],
           txData = Some 0, metadata = None\<rparr>
   = ''0xf9015701f884a0000000000000000000000000000000000000000000000000004640596164aa00a0000000000000000000000000000000000000000000000000004640599cff7400a0000000000000000000000000000000000000000000000000004640599cff7401a0000000000000000000000000000000000000000000000000004640599d00faa0f8ccf501f394f4ebbe787311bb955bb353b7a4d8b97af8ed1c9b940000000000000000000000000000000000000000880de0b6b3a7640000f501f3943272ee86d8192f59261960c9ae186063c8c9041f940000000000000000000000000000000000000000880de0b6b3a7640000f101ef9499d7b5c57c16acb24a327a37356a804a2f75dade9400000000000000000000000000000000000000008405f5e100ed01eb94bfdf85743ef16cfb1f8d4dd1dfc74c51dc496434940000000000000000000000000000000000000000648080''"
  by (simp add: codec_eval)

lemma encodeDeposit_test_string_amount:
  "encodeDeposit ''0x60c5bc2de80acda5016c1e81f61620adbc730dd2'' (Str ''1000000000000000000'')
     ETH_CURRENCY
   = ''0xf85b01c0f6f501f39460c5bc2de80acda5016c1e81f61620adbc730dd2940000000000000000000000000000000000000000880de0b6b3a764000080a00000000000000000000000000000000000000000000000000000000000000000''"
  by (simp add: codec_eval)

lemma encodeDeposit_test_no_prefix:
  "encodeDeposit ''0x60c5bc2de80acda5016c1e81f61620adbc730dd2'' (Str ''3000000000000000000000'')
     ''0000000000000000000000000000000000000000''
   = ''0xf85c01c0f7f601f49460c5bc2de80acda5016c1e81f61620adbc730dd294000000000000000000000000000000000000000089a2a15d09519be0000080a00000000000000000000000000000000000000000000000000000000000000000''"
  by (simp add: codec_eval)

text \<open>
  C3. \<open>encodeDeposit\<close> of the owner \<open>0x854951e37c68a99a52d9e3ae15e0cb62184a613e\<close>,
  the amount 333 and the native currency is exactly the documented byte string.
\<close>

theorem encodeDeposit_documented_bytes:
  "encodeDeposit ''0x854951e37c68a99a52d9e3ae15e0cb62184a613e'' (Native 333) ETH_CURRENCY =
   ''0xf85501c0f0ef01ed94854951e37c68a99a52d9e3ae15e0cb62184a613e94000000000000000000000000000000000000000082014d80a00000000000000000000000000000000000000000000000000000000000000000''"
  by (simp add: codec_eval)

lemmas valid_eval =
  validTx_def validInput_def validOutput_def isHexString_def acceptedAmount_def numberToBN_eval

lemmas decoded_eval =
  decodedForm_def decodedOutput_def lowerHex_def NULL_ADDRESS_def numberToBN_eval
  toStringBase_digit toStringBase_more digit_def

lemma decodingTestTx_decoded:
  "decodeTxBytes (encode decodingTestTx) =
     Inr \<lparr>txType = 1, inputs = [\<lparr>blknum = 19774001, txindex = 0, oindex = 0\<rparr>],
          outputs = [\<lparr>outputType = 1,
                      outputGuard = ''0xf4ebbe787311bb955bb353b7a4d8b97af8ed1c9b'',
                      currency = ''0x0000000000000000000000000000000000000000'',
                      amount = Str ''123''\<rparr>],
          txData = Some 0, metadata = Some ''0x0000000000000000000000000000000000000000''\<rparr>"
proof -
  have v: "validTx decodingTestTx"
    by (simp add: decodingTestTx_def valid_eval)
  have l: "length (rlpEncode (txToRlp decodingTestTx)) < 2 ^ 64"
    by (simp add: decodingTestTx_def codec_eval)
  have d: "decodedForm decodingTestTx =
     \<lparr>txType = 1, inputs = [\<lparr>blknum = 19774001, txindex = 0, oindex = 0\<rparr>],
          outputs = [\<lparr>outputType = 1,
                      outputGuard = ''0xf4ebbe787311bb955bb353b7a4d8b97af8ed1c9b'',
                      currency = ''0x0000000000000000000000000000000000000000'',
                      amount = Str ''123''\<rparr>],
          txData = Some 0, metadata = Some ''0x0000000000000000000000000000000000000000''\<rparr>"
    by (simp add: decodingTestTx_def decoded_eval)
  show ?thesis using decode_encode [OF v l] by (simp only: d)
qed




text \<open>
  C2 (as amended). For any transaction as in C1 (inputs with \<open>txindex\<close> below 100000
  and \<open>oindex\<close> below 10000; guards and currencies of 40 hexadecimal digits; amounts
  that \<open>numberToBN\<close> accepts and that are not negative; \<open>metadata\<close>, when given, 64
  hexadecimal digits; an encoding shorter than \<open>2^64\<close> bytes), decoding the encoding
  returns every amount as the decimal string of its value (a non-empty string of digits
  that \<open>numberToBN\<close> reads as that value, for every value), and returns \<open>metadata\<close>
  as \<open>0x\<close> and the digits that were given, in lower case, which are the same 32
  bytes, or as the 20-byte zero string \<open>0x00..00\<close> when the transaction had none.
\<close>

theorem decodeTxBytes_amount_metadata:
  assumes "validTx tx" and "length (rlpEncode (txToRlp tx)) < 2 ^ 64"
  shows "map_sum id (map tx_output.amount \<circ> outputs) (decodeTxBytes (encode tx))
           = Inr (map (\<lambda>out. Str (toStringBase 10 (nat (amountValue (tx_output.amount out)))))
                    (outputs tx))
       \<and> (toStringBase 10 n \<noteq> [] \<and> list_all isDigit (toStringBase 10 n)
          \<and> numberToBN (Str (toStringBase 10 n)) = Inr (int n))
       \<and> map_sum id metadata (decodeTxBytes (encode tx))
           = Inr (Some (case metadata tx of None \<Rightarrow> NULL_ADDRESS | Some m \<Rightarrow> lowerHex m))
       \<and> (\<forall>m. metadata tx = Some m \<longrightarrow>
            length (hexToBytes (stripHexPrefix (lowerHex m))) = 32
          \<and> hexToBytes (stripHexPrefix (lowerHex m)) = hexToBytes (stripHexPrefix m))"
proof -
  have d: "decodeTxBytes (encode tx) = Inr (decodedForm tx)"
    using assms by (rule decode_encode)
  have a: "map_sum id (map tx_output.amount \<circ> outputs) (decodeTxBytes (encode tx))
           = Inr (map (\<lambda>out. Str (toStringBase 10 (nat (amountValue (tx_output.amount out)))))
                    (outputs tx))"
    by (simp add: d decodedForm_def decodedOutput_def)
  have s: "toStringBase 10 n \<noteq> [] \<and> list_all isDigit (toStringBase 10 n)
          \<and> numberToBN (Str (toStringBase 10 n)) = Inr (int n)"
    using decimal_toStringBase [of n] numberToBN_decimal [of n] by simp
  have m: "map_sum id metadata (decodeTxBytes (encode tx))
           = Inr (Some (case metadata tx of None \<Rightarrow> NULL_ADDRESS | Some m \<Rightarrow> lowerHex m))"
    by (simp add: d decodedForm_def)
  have "length (hexToBytes (stripHexPrefix (lowerHex m))) = 32
          \<and> hexToBytes (stripHexPrefix (lowerHex m)) = hexToBytes (stripHexPrefix m)"
    if "metadata tx = Some m" for m
  proof -
    have h: "isHexString 32 m" using assms(1) that by (simp add: validTx_def)
    have len: "length (hexToBytes (stripHexPrefix m)) = 32" using h by (rule parseString_hex(2))
    have same: "hexToBytes (stripHexPrefix (lowerHex m)) = hexToBytes (stripHexPrefix m)"
      using h by (rule parseString_hex(3))
    show ?thesis using len by (simp only: same simp_thms)
  qed
  then have b: "\<forall>m. metadata tx = Some m \<longrightarrow>
            length (hexToBytes (stripHexPrefix (lowerHex m))) = 32
          \<and> hexToBytes (stripHexPrefix (lowerHex m)) = hexToBytes (stripHexPrefix m)"
    by (intro allI impI)
  show ?thesis by (rule conjI [OF a conjI [OF s conjI [OF m b]]])
qed

theorem decodeTxBytes_amount_metadata_witness:
  "map_sum id (map tx_output.amount \<circ> outputs)
     (decodeTxBytes
       (encode \<lparr>txType = 1, inputs = [],
                outputs = [\<lparr>outputType = 1,
                            outputGuard = ''0x60c5bc2de80acda5016c1e81f61620adbc730dd2'',
                            currency = ''0x0000000000000000000000000000000000000000'',
                            amount = BigNum 1000\<rparr>],
                txData = None,
                metadata = Some ''0x00000000000000000000000000000000000000000000000000000000000000AB''\<rparr>))
   = Inr [Str ''1000'']
   \<and> map_sum id metadata
     (decodeTxBytes
       (encode \<lparr>txType = 1, inputs = [],
                outputs = [\<lparr>outputType = 1,
                            outputGuard = ''0x60c5bc2de80acda5016c1e81f61620adbc730dd2'',
                            currency = ''0x0000000000000000000000000000000000000000'',
                            amount = BigNum 1000\<rparr>],
                txData = None,
                metadata = Some ''0x00000000000000000000000000000000000000000000000000000000000000AB''\<rparr>))
   = Inr (Some ''0x00000000000000000000000000000000000000000000000000000000000000ab'')"
proof -
  let ?tx = "\<lparr>txType = 1, inputs = [],
                outputs = [\<lparr>outputType = 1,
                            outputGuard = ''0x60c5bc2de80acda5016c1e81f61620adbc730dd2'',
                            currency = ''0x0000000000000000000000000000000000000000'',
                            amount = BigNum 1000\<rparr>],
                txData = None,
                metadata = Some ''0x00000000000000000000000000000000000000000000000000000000000000AB''\<rparr>"
  have v: "validTx ?tx" by (simp add: valid_eval)
  have l: "length (rlpEncode (txToRlp ?tx)) < 2 ^ 64" by (simp add: codec_eval)
  have a: "toStringBase 10 (nat (amountValue (BigNum 1000))) = ''1000''"
    by (simp add: amountValue_def numberToBN_def toStringBase_digit toStringBase_more digit_def)
  have m: "lowerHex ''0x00000000000000000000000000000000000000000000000000000000000000AB''
         = ''0x00000000000000000000000000000000000000000000000000000000000000ab''"
    by (simp add: lowerHex_def stripHexPrefix_def toLowerCase_def lowerChar_def)
  have "map_sum id (map tx_output.amount \<circ> outputs) (decodeTxBytes (encode ?tx))
           = Inr (map (\<lambda>out. Str (toStringBase 10 (nat (amountValue (tx_output.amount out)))))
                    (outputs ?tx))
       \<and> map_sum id metadata (decodeTxBytes (encode ?tx))
           = Inr (Some (case metadata ?tx of None \<Rightarrow> NULL_ADDRESS | Some m \<Rightarrow> lowerHex m))"
    using decodeTxBytes_amount_metadata [OF v l, of 0] by (elim conjE) (rule conjI)
  then show ?thesis by (simp add: a m)
qed

text \<open>
  C2 as stated fails on the transaction of the decoding test, which has no
  \<open>metadata\<close>: the decoded \<open>metadata\<close> is \<open>0x\<close> and 40 zeros, 20 bytes, not the 32
  zero bytes.
\<close>

theorem decodeTxBytes_metadata_counterexample:
  "map_sum id metadata (decodeTxBytes (encode decodingTestTx))
     = Inr (Some ''0x0000000000000000000000000000000000000000'')
   \<and> metadata decodingTestTx = None
   \<and> length (hexToBytes (stripHexPrefix ''0x0000000000000000000000000000000000000000'')) = 20
   \<and> ''0x0000000000000000000000000000000000000000'' \<noteq> NULL_METADATA"
  by (simp add: decodingTestTx_decoded)
     (simp add: decodingTestTx_def NULL_METADATA_def stripHexPrefix_def hexValue_def)

end
